theory Spec2Isabelle
  imports Main
begin

section \<open>Python values used by the backup reader\<close>

text \<open>
  Text is \<open>string\<close> (a list of 8-bit characters); the reader decodes every line as ASCII
  before it looks at it, so every character it handles is below 128. The exceptions the
  reader can meet are values of \<open>error\<close>; a computation that may raise returns
  \<open>error + 'a\<close>, with \<open>Inl\<close> the exception.
\<close>

datatype error =
    IndexError
  | KeyError string
  | TypeError
  | ValueError
  | OverflowError
  | UnicodeDecodeError
  | DecoderError string

definition bind_err :: "error + 'a \<Rightarrow> ('a \<Rightarrow> error + 'b) \<Rightarrow> error + 'b" where
  "bind_err r f = (case r of Inl e \<Rightarrow> Inl e | Inr v \<Rightarrow> f v)"

definition tab :: char where "tab = CHR 0x09"
definition newline :: char where "newline = CHR 0x0A"
definition dquote :: char where "dquote = CHR 0x22"
definition backslash :: char where "backslash = CHR 0x5C"

text \<open>\<open>str.isspace\<close> on ASCII: TAB, LF, VT, FF, CR, FS, GS, RS, US and the space.\<close>

definition is_space :: "char \<Rightarrow> bool" where
  "is_space c \<longleftrightarrow> c \<in> set [CHR 0x09, CHR 0x0A, CHR 0x0B, CHR 0x0C, CHR 0x0D,
                          CHR 0x1C, CHR 0x1D, CHR 0x1E, CHR 0x1F, CHR 0x20]"

text \<open>The narrower whitespace of the bytes functions (C's \<open>isspace\<close>).\<close>

definition is_ascii_space :: "char \<Rightarrow> bool" where
  "is_ascii_space c \<longleftrightarrow> c \<in> set [CHR 0x09, CHR 0x0A, CHR 0x0B, CHR 0x0C, CHR 0x0D, CHR 0x20]"

definition is_digit :: "char \<Rightarrow> bool" where
  "is_digit c \<longleftrightarrow> c \<in> set ''0123456789''"

text \<open>The regular expression class \<open>\w\<close> on ASCII text.\<close>

definition is_word :: "char \<Rightarrow> bool" where
  "is_word c \<longleftrightarrow> c \<in> set ''abcdefghijklmnopqrstuvwxyzABCDEFGHIJKLMNOPQRSTUVWXYZ0123456789_''"

text \<open>The value of a digit, read off a table (0 for a character that is no digit).\<close>

definition digit_val :: "char \<Rightarrow> nat" where
  "digit_val c =
     (case map_of (zip ''0123456789'' [0, 1, 2, 3, 4, 5, 6, 7, 8, 9]) c of
        None \<Rightarrow> 0
      | Some v \<Rightarrow> v)"

text \<open>The value of a run of decimal digits, most significant first.\<close>

definition nat_of_digits :: "string \<Rightarrow> nat" where
  "nat_of_digits ds = foldl (\<lambda>acc c. 10 * acc + digit_val c) 0 ds"

text \<open>\<open>s.strip()\<close>\<close>

definition strip :: "string \<Rightarrow> string" where
  "strip s = rev (dropWhile is_space (rev (dropWhile is_space s)))"

text \<open>\<open>s.split(sep)\<close> for a one-character separator: never an empty list.\<close>

fun split_on :: "char \<Rightarrow> string \<Rightarrow> string list" where
  "split_on sep [] = [[]]"
| "split_on sep (c # cs) =
     (if c = sep then [] # split_on sep cs
      else (case split_on sep cs of
              [] \<Rightarrow> [[c]]
            | w # ws \<Rightarrow> (c # w) # ws))"

text \<open>\<open>s.startswith(p)\<close>\<close>

definition startswith :: "string \<Rightarrow> string \<Rightarrow> bool" where
  "startswith p s \<longleftrightarrow> take (length p) s = p"

text \<open>\<open>s.replace(c, "")\<close> for a one-character \<open>c\<close>\<close>

definition remove_char :: "char \<Rightarrow> string \<Rightarrow> string" where
  "remove_char c s = filter (\<lambda>x. x \<noteq> c) s"

text \<open>\<open>raw.decode("ascii")\<close>: any byte from 128 on (its top bit set) raises.\<close>

definition decode_ascii :: "string \<Rightarrow> error + string" where
  "decode_ascii raw =
     (if list_all (\<lambda>c. \<not> digit7 c) raw then Inr raw else Inl UnicodeDecodeError)"

text \<open>
  \<open>int(s)\<close> in base ten, on ASCII text. The whitespace dropped at both ends is the
  narrower one (TAB, LF, VT, FF, CR and the space: the separators FS to US that
  \<open>strip\<close> removes are refused here); one sign is allowed, and the digits may be
  grouped by single underscores. More than 4300 digits, the interpreter's default limit,
  raise \<open>ValueError\<close> as any malformed text does.
\<close>

definition MAX_STR_DIGITS :: nat where "MAX_STR_DIGITS = 4300"

definition py_int :: "string \<Rightarrow> error + int" where
  "py_int s =
     (let t = rev (dropWhile is_ascii_space (rev (dropWhile is_ascii_space s)));
          neg = startswith ''-'' t;
          body = (if startswith ''-'' t \<or> startswith ''+'' t then drop 1 t else t);
          groups = split_on (CHR ''_'') body
      in if list_all (\<lambda>g. g \<noteq> [] \<and> list_all is_digit g) groups \<and>
            length (concat groups) \<le> MAX_STR_DIGITS
         then Inr ((if neg then -1 else 1) * int (nat_of_digits (concat groups)))
         else Inl ValueError)"

text \<open>
  \<open>bytearray.fromhex(s)\<close>: whitespace is skipped before each byte, and each byte is two
  hexadecimal digits side by side.
\<close>

definition hexval :: "char \<Rightarrow> nat option" where
  "hexval c =
     map_of (zip ''0123456789abcdefABCDEF''
                 [0, 1, 2, 3, 4, 5, 6, 7, 8, 9, 10, 11, 12, 13, 14, 15, 10, 11, 12, 13, 14, 15]) c"

fun fromhex :: "string \<Rightarrow> error + nat list" where
  "fromhex [] = Inr []"
| "fromhex [c] = (if is_ascii_space c then Inr [] else Inl ValueError)"
| "fromhex (c # d # ds) =
     (if is_ascii_space c then fromhex (d # ds)
      else (case hexval c of
              None \<Rightarrow> Inl ValueError
            | Some hi \<Rightarrow>
                (case hexval d of
                   None \<Rightarrow> Inl ValueError
                 | Some lo \<Rightarrow>
                     (case fromhex ds of
                        Inl e \<Rightarrow> Inl e
                      | Inr bs \<Rightarrow> Inr ((hi * 16 + lo) # bs)))))"


section \<open>Timestamps\<close>

text \<open>
  A \<open>datetime\<close>: the wall-clock fields and, once a zone is attached, the fixed offset
  from UTC in seconds (\<open>tzinfo\<close>; \<open>None\<close> for a naive value).
\<close>

record datetime =
  year :: nat
  month :: nat
  day :: nat
  hour :: nat
  minute :: nat
  second :: nat
  microsecond :: nat
  tzinfo :: "int option"

text \<open>
  \<open>datetime.strptime\<close> turns the format into a regular expression, matches it at the
  start of the text by ordered backtracking, and refuses text that the match leaves
  over. A parser here returns every way to match, in the order the backtracking would
  find them, each with the text still to read; the first complete one is the match.

  A directive is an alternation of character-class sequences, for instance
  \<open>%m\<close> is \<open>1[0-2]|0[1-9]|[1-9]\<close>; a class is the string of its members.
\<close>

fun match_classes :: "string list \<Rightarrow> string \<Rightarrow> (string \<times> string) option" where
  "match_classes [] s = Some ([], s)"
| "match_classes (cl # cls) [] = None"
| "match_classes (cl # cls) (c # s) =
     (if c \<in> set cl
      then (case match_classes cls s of
              None \<Rightarrow> None
            | Some (m, r) \<Rightarrow> Some (c # m, r))
      else None)"

definition directive :: "string list list \<Rightarrow> string \<Rightarrow> (nat \<times> string) list" where
  "directive alts s =
     List.map_filter
       (\<lambda>alt. case match_classes alt s of
                None \<Rightarrow> None
              | Some (m, r) \<Rightarrow> Some (nat_of_digits (filter is_digit m), r))
       alts"

definition dg :: string where "dg = ''0123456789''"

definition re_Y :: "string list list" where "re_Y = [[dg, dg, dg, dg]]"
definition re_m :: "string list list" where "re_m = [[''1'', ''012''], [''0'', ''123456789''], [''123456789'']]"
definition re_d :: "string list list" where
  "re_d = [[''3'', ''01''], [''12'', dg], [''0'', ''123456789''], [''123456789''], ['' '', ''123456789'']]"
definition re_H :: "string list list" where "re_H = [[''2'', ''0123''], [''01'', dg], [dg]]"
definition re_M :: "string list list" where "re_M = [[''012345'', dg], [dg]]"
definition re_S :: "string list list" where "re_S = [[''6'', ''01''], [''012345'', dg], [dg]]"

text \<open>A literal character of the format.\<close>

definition lit :: "char \<Rightarrow> string \<Rightarrow> string list" where
  "lit c s = (case s of [] \<Rightarrow> [] | x # r \<Rightarrow> if x = c then [r] else [])"

text \<open>The blank of the format stands for \<open>\s+\<close>, greedy: the longest run first.\<close>

fun spaces1 :: "string \<Rightarrow> string list" where
  "spaces1 [] = []"
| "spaces1 (c # s) = (if is_space c then spaces1 s @ [s] else [])"

text \<open>\<open>%f\<close> is \<open>[0-9]{1,6}\<close>, greedy, and is read as a fraction padded to six digits.\<close>

fun digits_upto :: "nat \<Rightarrow> string \<Rightarrow> (string \<times> string) list" where
  "digits_upto 0 s = []"
| "digits_upto (Suc n) [] = []"
| "digits_upto (Suc n) (c # s) =
     (if is_digit c then map (\<lambda>(m, r). (c # m, r)) (digits_upto n s) @ [([c], s)] else [])"

definition re_f :: "string \<Rightarrow> (nat \<times> string) list" where
  "re_f s =
     map (\<lambda>(m, r). (nat_of_digits (m @ replicate (6 - length m) (CHR ''0'')), r))
         (digits_upto 6 s)"

text \<open>\<open>%Y-%m-%d %H:%M:%S\<close>, the part both formats share.\<close>

definition re_seconds :: "string \<Rightarrow> (datetime \<times> string) list" where
  "re_seconds s =
     List.bind (directive re_Y s) (\<lambda>(y, s).
     List.bind (lit (CHR ''-'') s) (\<lambda>s.
     List.bind (directive re_m s) (\<lambda>(mo, s).
     List.bind (lit (CHR ''-'') s) (\<lambda>s.
     List.bind (directive re_d s) (\<lambda>(d, s).
     List.bind (spaces1 s) (\<lambda>s.
     List.bind (directive re_H s) (\<lambda>(h, s).
     List.bind (lit (CHR '':'') s) (\<lambda>s.
     List.bind (directive re_M s) (\<lambda>(mi, s).
     List.bind (lit (CHR '':'') s) (\<lambda>s.
     List.bind (directive re_S s) (\<lambda>(se, s).
       [(\<lparr>year = y, month = mo, day = d, hour = h, minute = mi, second = se,
          microsecond = 0, tzinfo = None\<rparr>, s)])))))))))))"

definition re_micros :: "string \<Rightarrow> (datetime \<times> string) list" where
  "re_micros s =
     List.bind (re_seconds s) (\<lambda>(dt, s).
     List.bind (lit (CHR ''.'') s) (\<lambda>s.
     List.bind (re_f s) (\<lambda>(f, s). [(dt\<lparr>microsecond := f\<rparr>, s)])))"

definition is_leap :: "nat \<Rightarrow> bool" where
  "is_leap y \<longleftrightarrow> y mod 4 = 0 \<and> (y mod 100 \<noteq> 0 \<or> y mod 400 = 0)"

definition days_in_month :: "nat \<Rightarrow> nat \<Rightarrow> nat" where
  "days_in_month y m =
     (if m = 2 then (if is_leap y then 29 else 28)
      else if m \<in> set [4, 6, 9, 11] then 30 else 31)"

text \<open>What the \<open>date\<close> and \<open>datetime\<close> constructors accept of the matched fields.\<close>

definition valid_fields :: "datetime \<Rightarrow> bool" where
  "valid_fields dt \<longleftrightarrow>
     1 \<le> year dt \<and> 1 \<le> month dt \<and> month dt \<le> 12 \<and>
     1 \<le> day dt \<and> day dt \<le> days_in_month (year dt) (month dt) \<and>
     hour dt \<le> 23 \<and> minute dt \<le> 59 \<and> second dt \<le> 59"

text \<open>
  The match is the first way found; text left over after it, or fields no date has, raise
  \<open>ValueError\<close>.
\<close>

definition strptime_re :: "(string \<Rightarrow> (datetime \<times> string) list) \<Rightarrow> string \<Rightarrow> error + datetime" where
  "strptime_re re s =
     (case re s of
        [] \<Rightarrow> Inl ValueError
      | (dt, r) # _ \<Rightarrow> if r = [] \<and> valid_fields dt then Inr dt else Inl ValueError)"

text \<open>\<open>datetime.strptime(s, "%Y-%m-%d %H:%M:%S.%f")\<close>\<close>

definition strptime_micros :: "string \<Rightarrow> error + datetime" where
  "strptime_micros = strptime_re re_micros"

text \<open>\<open>datetime.strptime(s, "%Y-%m-%d %H:%M:%S")\<close>\<close>

definition strptime_seconds :: "string \<Rightarrow> error + datetime" where
  "strptime_seconds = strptime_re re_seconds"

text \<open>
  Lines 113 to 118 of \<open>_extract_column_in\<close>: the format with microseconds, and on
  \<open>ValueError\<close> the format without.
\<close>

definition parse_timestamp :: "string \<Rightarrow> error + datetime" where
  "parse_timestamp s =
     (case strptime_micros s of
        Inr dt \<Rightarrow> Inr dt
      | Inl e \<Rightarrow> if e = ValueError then strptime_seconds s else Inl e)"

text \<open>
  \<open>timedelta(seconds=n)\<close> holds whole days up to 999999999 either way and raises
  \<open>OverflowError\<close> beyond; \<open>tz.tzoffset("", delta)\<close> is the zone with that offset.
\<close>

definition timedelta_seconds :: "int \<Rightarrow> error + int" where
  "timedelta_seconds n =
     (if - 999999999 \<le> n div 86400 \<and> n div 86400 \<le> 999999999 then Inr n else Inl OverflowError)"

text \<open>\<open>dt.replace(tzinfo=...)\<close>: the wall-clock fields stay as they are.\<close>

definition replace_tzinfo :: "datetime \<Rightarrow> int \<Rightarrow> datetime" where
  "replace_tzinfo dt off = dt\<lparr>tzinfo := Some off\<rparr>"

text \<open>
  Formatting a \<open>datetime\<close> asks its zone for the offset, which must lie strictly within a
  day of UTC.
\<close>

definition str_datetime_ok :: "datetime \<Rightarrow> bool" where
  "str_datetime_ok dt \<longleftrightarrow> (case tzinfo dt of None \<Rightarrow> True | Some off \<Rightarrow> - 86400 < off \<and> off < 86400)"


section \<open>The backup reader\<close>

text \<open>
  The fields \<open>BackupReader.__init__\<close> sets; a column index is \<open>None\<close> until a table start
  has stored it.
\<close>

record reader =
  g_col_raw :: "nat option"
  g_col_timestamp :: "nat option"
  g_col_tzoffset :: "nat option"
  g_lines_read :: nat
  g_read_rows :: bool
  g_table_name :: "string option"

definition init_reader :: reader where
  "init_reader = \<lparr>g_col_raw = None, g_col_timestamp = None, g_col_tzoffset = None,
                   g_lines_read = 0, g_read_rows = False, g_table_name = None\<rparr>"

definition LOG_INTERVAL_QUEUE :: nat where "LOG_INTERVAL_QUEUE = 50"
definition LOG_INTERVAL_TABLE :: nat where "LOG_INTERVAL_TABLE = 100000"

text \<open>
  What the reader does to the world, in order: each \<open>logging.info\<close> call (the message
  template and its arguments) and each \<open>MqttConnector.load_queue\<close> call with its
  arguments \<open>measurement\<close>, \<open>time_field\<close>, \<open>payload\<close> and \<open>log\<close>.
\<close>

datatype 'p event =
    LogStartOfTable "string option"
  | LogEndOfTable "string option"
  | LogReadRows nat
  | LogReadLines nat datetime
  | LogBeginTable string
  | LogColumns "string list"
  | LogSkippingTable error
  | LogEndOfBackup
  | LoadQueue string datetime 'p bool

text \<open>
  The names the reader imports from \<open>src.classes.mqtt_classes\<close>, which is not among the
  sources, are parameters: the measurement name \<open>MqttTopics.dc_name\<close> and the three
  decoders of \<open>PyMateDecoder\<close>, each of which may raise.
\<close>

record 'p mqtt =
  dc_name :: string
  dc_decoder :: "nat list \<Rightarrow> error + 'p"
  mx_decoder :: "nat list \<Rightarrow> error + 'p"
  fx_decoder :: "nat list \<Rightarrow> error + 'p"

text \<open>\<open>BackupReader._column_in\<close>\<close>

definition column_in ::
  "'p mqtt \<Rightarrow> string option \<Rightarrow> nat \<Rightarrow> datetime \<Rightarrow> nat list \<Rightarrow> error + 'p event list" where
  "column_in env table_name row_num timestamp raw_packet =
     (if table_name = Some ''dc_status'' then
        (case dc_decoder env raw_packet of
           Inl e \<Rightarrow> Inl e
         | Inr dc_payload \<Rightarrow>
             Inr [LoadQueue (dc_name env) timestamp dc_payload (row_num mod LOG_INTERVAL_QUEUE = 0)])
      else if table_name = Some ''mx_status'' then
        (case mx_decoder env raw_packet of
           Inl e \<Rightarrow> Inl e
         | Inr mx_payload \<Rightarrow>
             Inr [LoadQueue (dc_name env) timestamp mx_payload (row_num mod LOG_INTERVAL_QUEUE = 0)])
      else if table_name = Some ''mx_logpage'' then Inr []
      else if table_name = Some ''fx_status'' then
        (case fx_decoder env raw_packet of
           Inl e \<Rightarrow> Inl e
         | Inr fx_payload \<Rightarrow>
             Inr [LoadQueue (dc_name env) timestamp fx_payload (row_num mod LOG_INTERVAL_QUEUE = 0)])
      else Inr [])"

text \<open>\<open>cells[i]\<close> for a stored column index: \<open>TypeError\<close> on \<open>None\<close>, \<open>IndexError\<close> past the end.\<close>

definition get_cell :: "string list \<Rightarrow> nat option \<Rightarrow> error + string" where
  "get_cell cells idx =
     (case idx of
        None \<Rightarrow> Inl TypeError
      | Some i \<Rightarrow> if i < length cells then Inr (cells ! i) else Inl IndexError)"

text \<open>
  Lines 107 to 127 of \<open>_extract_column_in\<close>: the three cells, the timestamp, the zone and
  the packet, each step raising before the next is tried.
\<close>

definition decode_row :: "reader \<Rightarrow> string \<Rightarrow> error + (datetime \<times> nat list)" where
  "decode_row st line =
     (let cells = split_on tab line in
      bind_err (get_cell cells (g_col_timestamp st)) (\<lambda>timestamp.
      bind_err (get_cell cells (g_col_tzoffset st)) (\<lambda>tzoffset.
      bind_err (get_cell cells (g_col_raw st)) (\<lambda>raw_packet.
      bind_err (parse_timestamp timestamp) (\<lambda>timestamp_utc.
      bind_err (py_int tzoffset) (\<lambda>seconds.
      bind_err (timedelta_seconds seconds) (\<lambda>offset.
      bind_err (fromhex (drop 3 raw_packet)) (\<lambda>packet.
        Inr (replace_tzinfo timestamp_utc offset, packet)))))))))"

text \<open>
  \<open>BackupReader._extract_column_in\<close>. The counter is raised first and stays raised when
  the row fails; the result is the reader, what was logged and queued, and the exception
  if one was raised.
\<close>

definition extract_column_in ::
  "'p mqtt \<Rightarrow> reader \<Rightarrow> string \<Rightarrow> reader \<times> 'p event list \<times> error option" where
  "extract_column_in env st line =
     (let st1 = st\<lparr>g_lines_read := g_lines_read st + 1\<rparr> in
      case decode_row st1 line of
        Inl e \<Rightarrow> (st1, [], Some e)
      | Inr (timestamp, raw_packet) \<Rightarrow>
          if g_lines_read st1 mod LOG_INTERVAL_TABLE = 0 \<and> \<not> str_datetime_ok timestamp
          then (st1, [], Some ValueError)
          else
            (let logs = (if g_lines_read st1 mod LOG_INTERVAL_TABLE = 0
                         then [LogReadLines (g_lines_read st1) timestamp] else [])
             in case column_in env (g_table_name st1) (g_lines_read st1) timestamp raw_packet of
                  Inl e \<Rightarrow> (st1, logs, Some e)
                | Inr evs \<Rightarrow> (st1, logs @ evs, None)))"

text \<open>
  \<open>re.match(r"^COPY (\w+) \((.*)\)", line)\<close>, giving groups 1 and 2. The name is the
  longest run of word characters (a shorter one could not be followed by the blank); the
  dot stops at a line feed, and the greedy \<open>.*\<close> gives way up to the last closing
  parenthesis before it.
\<close>

definition match_copy :: "string \<Rightarrow> (string \<times> string) option" where
  "match_copy line =
     (if \<not> startswith ''COPY '' line then None
      else
        (let r = drop 5 line;
             name = takeWhile is_word r;
             r1 = dropWhile is_word r;
             seg = takeWhile (\<lambda>c. c \<noteq> newline) (drop 2 r1)
         in if name = [] \<or> \<not> startswith '' ('' r1 \<or> CHR '')'' \<notin> set seg then None
            else Some (name, rev (tl (dropWhile (\<lambda>c. c \<noteq> CHR '')'') (rev seg))))))"

text \<open>The column list of line 146: split at commas, double quotes removed, stripped.\<close>

definition column_names :: "string \<Rightarrow> string list" where
  "column_names cols = map (\<lambda>c. strip (remove_char dquote c)) (split_on (CHR '','') cols)"

text \<open>The dictionary of line 149: a later column of the same name overwrites an earlier one.\<close>

definition columns_map :: "string list \<Rightarrow> (string \<rightharpoonup> nat)" where
  "columns_map g_columns = fold (\<lambda>(i, k) m. m(k \<mapsto> i)) (enumerate 0 g_columns) Map.empty"

text \<open>\<open>g_columns_map[k]\<close>\<close>

definition lookup_column :: "(string \<rightharpoonup> nat) \<Rightarrow> string \<Rightarrow> error + nat" where
  "lookup_column m k = (case m k of None \<Rightarrow> Inl (KeyError k) | Some i \<Rightarrow> Inr i)"

text \<open>
  \<open>BackupReader._extract_start_table\<close>, on the two groups of the match. Each assignment
  is kept when a later lookup raises.
\<close>

definition extract_start_table ::
  "reader \<Rightarrow> string \<times> string \<Rightarrow> reader \<times> 'p event list \<times> error option" where
  "extract_start_table st matched_line =
     (let st1 = st\<lparr>g_table_name := Some (fst matched_line)\<rparr>;
          g_columns = column_names (snd matched_line);
          g_columns_map = columns_map g_columns;
          logs = [LogBeginTable (fst matched_line), LogColumns g_columns]
      in case lookup_column g_columns_map ''timestamp'' of
           Inl err \<Rightarrow> (st1, logs @ [LogSkippingTable err], Some err)
         | Inr i \<Rightarrow>
             (let st2 = st1\<lparr>g_col_timestamp := Some i\<rparr> in
              case lookup_column g_columns_map ''tzoffset'' of
                Inl err \<Rightarrow> (st2, logs @ [LogSkippingTable err], Some err)
              | Inr j \<Rightarrow>
                  (let st3 = st2\<lparr>g_col_tzoffset := Some j\<rparr> in
                   case lookup_column g_columns_map ''raw_packet'' of
                     Inl err \<Rightarrow> (st3, logs @ [LogSkippingTable err], Some err)
                   | Inr k \<Rightarrow>
                       (st3\<lparr>g_col_raw := Some k, g_read_rows := True, g_lines_read := 0\<rparr>,
                        logs, None))))"

text \<open>How the body of the loop leaves: on to the next line, \<open>break\<close>, or an exception.\<close>

datatype control = Next | Break | Raise error

text \<open>The body of the loop of \<open>read_compressed_xz\<close>, for one raw line.\<close>

definition process_line ::
  "'p mqtt \<Rightarrow> reader \<Rightarrow> string \<Rightarrow> reader \<times> 'p event list \<times> control" where
  "process_line env st line_raw =
     (case decode_ascii line_raw of
        Inl e \<Rightarrow> (st, [], Raise e)
      | Inr text \<Rightarrow>
          (let line = strip text in
           if g_read_rows st then
             (if line = [backslash, CHR ''.''] \<or> line = [] then
                (st\<lparr>g_read_rows := False\<rparr>,
                 [LogEndOfTable (g_table_name st), LogReadRows (g_lines_read st)], Next)
              else
                (case extract_column_in env st line of
                   (st', evs, None) \<Rightarrow> (st', evs, Next)
                 | (st', evs, Some e) \<Rightarrow> (st', evs, Raise e)))
           else if startswith ''COPY '' line then
             (case match_copy line of
                None \<Rightarrow> (st, [], Next)
              | Some matched_line \<Rightarrow>
                  (case extract_start_table st matched_line of
                     (st', evs, Some e) \<Rightarrow> (st', evs, Next)
                   | (st', evs, None) \<Rightarrow> (st', evs @ [LogStartOfTable (g_table_name st')], Next)))
           else if startswith ''-- Completed'' line then (st, [LogEndOfBackup], Break)
           else (st, [], Next)))"

text \<open>How \<open>read_compressed_xz\<close> ends: the file ran out, the loop broke, or an exception left it.\<close>

datatype outcome = Exhausted | Completed | Raised error

text \<open>
  \<open>BackupReader.read_compressed_xz\<close> on the lines of the opened file, from a reader state:
  the final state, everything logged and queued, and how it ended.
\<close>

fun read_compressed_xz ::
  "'p mqtt \<Rightarrow> reader \<Rightarrow> string list \<Rightarrow> reader \<times> 'p event list \<times> outcome" where
  "read_compressed_xz env st [] = (st, [], Exhausted)"
| "read_compressed_xz env st (line_raw # rest) =
     (case process_line env st line_raw of
        (st', evs, Next) \<Rightarrow>
          (case read_compressed_xz env st' rest of
             (st'', evs', out) \<Rightarrow> (st'', evs @ evs', out))
      | (st', evs, Break) \<Rightarrow> (st', evs, Completed)
      | (st', evs, Raise e) \<Rightarrow> (st', evs, Raised e))"

text \<open>The \<open>load_queue\<close> calls among the events.\<close>

fun is_load_queue :: "'p event \<Rightarrow> bool" where
  "is_load_queue (LoadQueue m t p l) = True"
| "is_load_queue _ = False"

section \<open>Kinds of line\<close>

text \<open>
  A raw line that starts a table whose rows will be read: it decodes, its stripped text
  matches the \<open>COPY\<close> pattern, and the column list declares the three columns the reader
  needs.
\<close>

definition valid_table_start :: "string \<Rightarrow> bool" where
  "valid_table_start line_raw =
     (case decode_ascii line_raw of
        Inl e \<Rightarrow> False
      | Inr text \<Rightarrow>
          (case match_copy (strip text) of
             None \<Rightarrow> False
           | Some (name, cols) \<Rightarrow>
               ''timestamp'' \<in> set (column_names cols) \<and>
               ''tzoffset'' \<in> set (column_names cols) \<and>
               ''raw_packet'' \<in> set (column_names cols)))"

section \<open>The bounded queue\<close>

text \<open>
  Modelled from the spec: the BoundedQueue that stands between the reader and the sink
  writers. Its code (the queue behind \<open>MqttConnector.load_queue\<close>, in \<open>mqtt_classes\<close>
  and \<open>helpers.consts\<close>) is not among the sources. The state is the sequence of items,
  oldest first, and the fixed capacity; \<open>length\<close> is the length of the sequence.
\<close>

record 'a bounded_queue =
  items :: "'a list"
  capacity :: nat

text \<open>Modelled from the spec: a queue of capacity \<open>n\<close> before anything is enqueued.\<close>

definition new_queue :: "nat \<Rightarrow> 'a bounded_queue" where
  "new_queue n = \<lparr>items = [], capacity = n\<rparr>"

text \<open>
  Modelled from the spec: \<open>enqueue(item)\<close> blocks the caller while
  \<open>length == capacity\<close>, then appends. \<open>None\<close> is the blocked caller: the operation has
  not taken place and the queue is as it was.
\<close>

definition enqueue :: "'a \<Rightarrow> 'a bounded_queue \<Rightarrow> 'a bounded_queue option" where
  "enqueue x q =
     (if length (items q) = capacity q then None else Some (q\<lparr>items := items q @ [x]\<rparr>))"

text \<open>
  Modelled from the spec: \<open>dequeue()\<close> blocks while \<open>length == 0\<close>, then removes and
  returns the oldest item. \<open>None\<close> is the blocked caller.
\<close>

definition dequeue :: "'a bounded_queue \<Rightarrow> ('a \<times> 'a bounded_queue) option" where
  "dequeue q = (case items q of [] \<Rightarrow> None | y # ys \<Rightarrow> Some (y, q\<lparr>items := ys\<rparr>))"

text \<open>
  Modelled from the spec: the queue with its callers. Threads take effect on the queue one
  at a time (access is synchronised), so a run is a sequence of attempts; an attempt that
  finds the caller blocked changes nothing, and the caller tries again later in the
  sequence. \<open>enqueued\<close> and \<open>dequeued\<close> list the items of the operations that completed,
  in the order they completed.
\<close>

datatype 'a request = Enqueue 'a | Dequeue

record 'a queue_run =
  queue :: "'a bounded_queue"
  enqueued :: "'a list"
  dequeued :: "'a list"

text \<open>Modelled from the spec: the run before any attempt.\<close>

definition start :: "nat \<Rightarrow> 'a queue_run" where
  "start n = \<lparr>queue = new_queue n, enqueued = [], dequeued = []\<rparr>"

text \<open>Modelled from the spec: one attempt.\<close>

fun attempt :: "'a request \<Rightarrow> 'a queue_run \<Rightarrow> 'a queue_run" where
  "attempt (Enqueue x) s =
     (case enqueue x (queue s) of
        None \<Rightarrow> s
      | Some q \<Rightarrow> s\<lparr>queue := q, enqueued := enqueued s @ [x]\<rparr>)"
| "attempt Dequeue s =
     (case dequeue (queue s) of
        None \<Rightarrow> s
      | Some (y, q) \<Rightarrow> s\<lparr>queue := q, dequeued := dequeued s @ [y]\<rparr>)"

text \<open>Modelled from the spec: a sequence of attempts, in order.\<close>

definition attempts :: "'a request list \<Rightarrow> 'a queue_run \<Rightarrow> 'a queue_run" where
  "attempts rs s = fold attempt rs s"

section \<open>Example inputs\<close>

text \<open>Collaborators whose decoders hand the packet bytes on, and rows to run the reader on.\<close>

definition echo_mqtt :: "nat list mqtt" where
  "echo_mqtt = \<lparr>dc_name = ''dc_status'', dc_decoder = Inr, mx_decoder = Inr, fx_decoder = Inr\<rparr>"

definition row_micros :: string where
  "row_micros = ''2020-01-01 00:00:00.123456'' @ [tab] @ ''46800'' @ [tab]
                @ [backslash, backslash] @ ''x00112233''"

definition mx_reader :: reader where
  "mx_reader = \<lparr>g_col_raw = Some 2, g_col_timestamp = Some 0, g_col_tzoffset = Some 1,
                 g_lines_read = 0, g_read_rows = True, g_table_name = Some ''mx_status''\<rparr>"

definition ts_micros :: datetime where
  "ts_micros = \<lparr>year = 2020, month = 1, day = 1, hour = 0, minute = 0, second = 0,
                 microsecond = 123456, tzinfo = None\<rparr>"

definition cols_quoted :: string where
  "cols_quoted = ''id, '' @ [dquote] @ ''timestamp'' @ [dquote] @ '', tzoffset, raw_packet''"

definition cols_no_raw :: string where
  "cols_no_raw = ''timestamp, tzoffset, value''"

definition skipped_copy :: string where
  "skipped_copy = ''COPY mx_logpage ('' @ cols_no_raw @ '')'' @ [newline]"

definition skipped_reader :: reader where
  "skipped_reader = init_reader\<lparr>g_table_name := Some ''mx_logpage'', g_col_timestamp := Some 0,
                                  g_col_tzoffset := Some 1\<rparr>"

definition dc_copy :: string where
  "dc_copy = ''COPY dc_status (timestamp, tzoffset, raw_packet)'' @ [newline]"

definition dc_reader :: reader where
  "dc_reader = \<lparr>g_col_raw = Some 2, g_col_timestamp = Some 0, g_col_tzoffset = Some 1,
                 g_lines_read = 0, g_read_rows = True, g_table_name = Some ''dc_status''\<rparr>"

definition short_row :: string where
  "short_row = ''2020-01-01 00:00:00'' @ [newline]"

definition terminator :: string where
  "terminator = [backslash, CHR ''.'', newline]"

definition completed_line :: string where
  "completed_line = ''-- Completed backup'' @ [newline]"

definition row_micros_raw :: string where
  "row_micros_raw = row_micros @ [newline]"

definition dc_start_events :: "nat list event list" where
  "dc_start_events = [LogBeginTable ''dc_status'',
                      LogColumns [''timestamp'', ''tzoffset'', ''raw_packet''],
                      LogStartOfTable (Some ''dc_status'')]"

definition skip_events :: "nat list event list" where
  "skip_events = [LogBeginTable ''mx_logpage'', LogColumns [''timestamp'', ''tzoffset'', ''value''],
                  LogSkippingTable (KeyError ''raw_packet'')]"

definition queue_requests :: "nat request list" where
  "queue_requests = [Enqueue 1, Enqueue 2, Enqueue 3, Dequeue, Enqueue 3, Dequeue, Dequeue,
                     Dequeue, Dequeue]"

definition full_queue :: "nat bounded_queue" where
  "full_queue = \<lparr>items = [1, 2], capacity = 2\<rparr>"

definition row_fs :: string where
  "row_fs = ''2020-01-01 00:00:00.123456'' @ [tab] @ [CHR 0x1C] @ ''46800'' @ [tab]
            @ [backslash, backslash] @ ''x00112233''"

definition row_fs_raw :: string where
  "row_fs_raw = row_fs @ [newline]"

section \<open>Evaluation\<close>

lemma digits_upto_numeral [simp]:
  "digits_upto (numeral k) [] = []"
  "digits_upto (numeral k) (c # s) =
     (if is_digit c then map (\<lambda>(m, r). (c # m, r)) (digits_upto (pred_numeral k) s) @ [([c], s)]
      else [])"
  by (simp_all add: numeral_eq_Suc)

lemmas strptime_defs =
  parse_timestamp_def strptime_micros_def strptime_seconds_def strptime_re_def re_micros_def
  re_seconds_def directive_def re_Y_def re_m_def re_d_def re_H_def re_M_def re_S_def dg_def
  lit_def re_f_def valid_fields_def days_in_month_def is_leap_def nat_of_digits_def
  digit_val_def is_digit_def is_space_def List.bind_def

lemma parse_ts_micros: "parse_timestamp ''2020-01-01 00:00:00.123456'' = Inr ts_micros"
  by (simp add: strptime_defs ts_micros_def)

lemma int_46800: "py_int ''46800'' = Inr 46800"
  by (simp add: py_int_def is_ascii_space_def startswith_def is_digit_def nat_of_digits_def
      digit_val_def MAX_STR_DIGITS_def)

lemma cells_row_micros:
  "split_on tab row_micros =
     [''2020-01-01 00:00:00.123456'', ''46800'', [backslash, backslash] @ ''x00112233'']"
  by (simp add: row_micros_def tab_def backslash_def)

lemma decode_row_micros:
  "g_col_timestamp st = Some 0 \<Longrightarrow> g_col_tzoffset st = Some 1 \<Longrightarrow> g_col_raw st = Some 2 \<Longrightarrow>
   decode_row st row_micros = Inr (ts_micros\<lparr>tzinfo := Some 46800\<rparr>, [0, 17, 34, 51])"
  by (simp add: decode_row_def cells_row_micros get_cell_def bind_err_def parse_ts_micros
      int_46800 is_ascii_space_def hexval_def timedelta_seconds_def replace_tzinfo_def
      backslash_def)

lemma extract_mx_row:
  "extract_column_in echo_mqtt mx_reader row_micros =
     (mx_reader\<lparr>g_lines_read := 1\<rparr>,
      [LoadQueue ''dc_status'' (ts_micros\<lparr>tzinfo := Some 46800\<rparr>) [0, 17, 34, 51] False], None)"
  by (simp add: extract_column_in_def decode_row_micros mx_reader_def column_in_def echo_mqtt_def
      LOG_INTERVAL_TABLE_def LOG_INTERVAL_QUEUE_def)

lemma strptime_micros_full: "strptime_micros ''2020-01-01 00:00:00.123456'' = Inr ts_micros"
  by (simp add: strptime_defs ts_micros_def)

lemma strptime_micros_plain: "strptime_micros ''2020-01-01 00:00:00'' = Inl ValueError"
  by (simp add: strptime_defs)

lemma strptime_seconds_plain:
  "strptime_seconds ''2020-01-01 00:00:00'' = Inr (ts_micros\<lparr>microsecond := 0\<rparr>)"
  by (simp add: strptime_defs ts_micros_def)

lemma int_43200: "py_int ''43200'' = Inr 43200"
  by (simp add: py_int_def is_ascii_space_def startswith_def is_digit_def nat_of_digits_def
      digit_val_def MAX_STR_DIGITS_def)

lemma strptime_re_error: "strptime_re re s = Inl e \<Longrightarrow> e = ValueError"
  by (auto simp: strptime_re_def split: list.splits prod.splits if_splits)

lemma hex_after_prefix:
  "fromhex (drop 3 ([backslash, backslash, CHR ''x''] @ ''00112233'')) = Inr [0, 17, 34, 51]"
  by (simp add: is_ascii_space_def hexval_def)

text \<open>
  Read as backslash, \<open>x\<close> and the digits, one backslash only, the same field loses its
  first digit with the prefix and has an odd number of digits left.
\<close>

lemma hex_after_short_prefix:
  "fromhex (drop 3 ([backslash, CHR ''x''] @ ''00112233'')) = Inl ValueError"
  by (simp add: is_ascii_space_def hexval_def)

lemma decode_row_parts:
  assumes "decode_row st line = Inr (ts, packet)"
  shows "\<exists>tsf tzf rawf utc n.
           get_cell (split_on tab line) (g_col_timestamp st) = Inr tsf \<and>
           get_cell (split_on tab line) (g_col_tzoffset st) = Inr tzf \<and>
           get_cell (split_on tab line) (g_col_raw st) = Inr rawf \<and>
           parse_timestamp tsf = Inr utc \<and> py_int tzf = Inr n \<and>
           ts = utc\<lparr>tzinfo := Some n\<rparr> \<and> fromhex (drop 3 rawf) = Inr packet"
  using assms
  by (auto simp: decode_row_def bind_err_def Let_def timedelta_seconds_def replace_tzinfo_def
      split: sum.splits if_splits)

text \<open>A separator character before the digits is not whitespace to \<open>int\<close>.\<close>

lemma int_fs_46800: "py_int (CHR 0x1C # ''46800'') = Inl ValueError"
  by (simp add: py_int_def is_ascii_space_def startswith_def is_digit_def)

lemma cells_row_fs:
  "split_on tab row_fs =
     [''2020-01-01 00:00:00.123456'', CHR 0x1C # ''46800'', [backslash, backslash] @ ''x00112233'']"
  by (simp add: row_fs_def tab_def backslash_def)

lemma decode_row_fs:
  "g_col_timestamp st = Some 0 \<Longrightarrow> g_col_tzoffset st = Some 1 \<Longrightarrow> g_col_raw st = Some 2 \<Longrightarrow>
   decode_row st row_fs = Inl ValueError"
  by (simp add: decode_row_def cells_row_fs get_cell_def bind_err_def parse_ts_micros
      int_fs_46800)

section \<open>The column dictionary\<close>

lemma columns_map_snoc: "columns_map (cs @ [c]) = (columns_map cs)(c \<mapsto> length cs)"
  by (simp add: columns_map_def enumerate_append_eq)

lemma columns_map_Nil: "columns_map [] = Map.empty"
  by (simp add: columns_map_def)

lemma columns_map_Some:
  "columns_map cs k = Some i \<Longrightarrow>
     i < length cs \<and> cs ! i = k \<and> (\<forall>j. i < j \<and> j < length cs \<longrightarrow> cs ! j \<noteq> k)"
proof (induction cs arbitrary: i rule: rev_induct)
  case Nil
  then show ?case by (simp add: columns_map_Nil)
next
  case (snoc c cs)
  show ?case
  proof (cases "c = k")
    case True
    with snoc.prems have "i = length cs"
      by (simp add: columns_map_snoc)
    with True show ?thesis by auto
  next
    case False
    with snoc.prems have "columns_map cs k = Some i"
      by (simp add: columns_map_snoc)
    from snoc.IH [OF this] False show ?thesis
      by (auto simp: nth_append less_Suc_eq)
  qed
qed

lemma columns_map_None: "columns_map cs k = None \<longleftrightarrow> k \<notin> set cs"
  by (induction cs rule: rev_induct) (auto simp: columns_map_Nil columns_map_snoc)

lemma columns_map_member: "k \<in> set cs \<Longrightarrow> \<exists>i. columns_map cs k = Some i"
  using columns_map_None [of cs k] by (cases "columns_map cs k") auto

lemma column_names_quoted:
  "column_names cols_quoted = [''id'', ''timestamp'', ''tzoffset'', ''raw_packet'']"
  by (simp add: column_names_def cols_quoted_def strip_def is_space_def remove_char_def dquote_def)

lemma column_names_no_raw:
  "column_names cols_no_raw = [''timestamp'', ''tzoffset'', ''value'']"
  by (simp add: column_names_def cols_no_raw_def strip_def is_space_def remove_char_def dquote_def)

lemma skipped_copy_ascii: "decode_ascii skipped_copy = Inr skipped_copy"
  by (simp add: decode_ascii_def skipped_copy_def cols_no_raw_def newline_def)

lemma skipped_copy_match: "match_copy (strip skipped_copy) = Some (''mx_logpage'', cols_no_raw)"
  by (simp add: skipped_copy_def cols_no_raw_def strip_def is_space_def newline_def match_copy_def
      startswith_def is_word_def)

lemma skipped_copy_start:
  "(extract_start_table init_reader (''mx_logpage'', cols_no_raw)
      :: reader \<times> nat list event list \<times> error option) =
     (skipped_reader,
      [LogBeginTable ''mx_logpage'', LogColumns [''timestamp'', ''tzoffset'', ''value''],
       LogSkippingTable (KeyError ''raw_packet'')],
      Some (KeyError ''raw_packet''))"
  by (simp add: extract_start_table_def column_names_no_raw columns_map_def enumerate_eq_zip
      lookup_column_def skipped_reader_def init_reader_def)

section \<open>The loop, line by line\<close>

lemma start_table_no_load_queue:
  "(extract_start_table st m :: reader \<times> 'p event list \<times> error option) = (st', evs, r) \<Longrightarrow>
   filter is_load_queue evs = []"
  by (auto simp: extract_start_table_def lookup_column_def Let_def split: option.splits)

lemma start_table_missing:
  assumes "\<not> (''timestamp'' \<in> set (column_names cols) \<and> ''tzoffset'' \<in> set (column_names cols) \<and>
              ''raw_packet'' \<in> set (column_names cols))"
    and "(extract_start_table st (name, cols) :: reader \<times> 'p event list \<times> error option) = (st', evs, r)"
  shows "\<exists>err. r = Some err \<and> LogSkippingTable err \<in> set evs \<and>
           g_read_rows st' = g_read_rows st \<and> g_lines_read st' = g_lines_read st"
  using assms columns_map_None [of "column_names cols" "''timestamp''"]
    columns_map_None [of "column_names cols" "''tzoffset''"]
    columns_map_None [of "column_names cols" "''raw_packet''"]
  by (auto simp: extract_start_table_def lookup_column_def Let_def split: option.splits)

lemma seeking_step:
  assumes "\<not> g_read_rows st" and "\<not> valid_table_start line_raw"
    and "process_line (env :: 'p mqtt) st line_raw = (st', evs, c)"
  shows "\<not> g_read_rows st' \<and> g_lines_read st' = g_lines_read st \<and> filter is_load_queue evs = []"
proof (cases "decode_ascii line_raw")
  case (Inl e)
  with assms show ?thesis by (auto simp: process_line_def)
next
  case (Inr decoded)
  show ?thesis
  proof (cases "match_copy (strip decoded)")
    case None
    with assms Inr show ?thesis
      by (auto simp: process_line_def Let_def split: if_splits)
  next
    case (Some m)
    obtain name cols where m: "m = (name, cols)" by (cases m)
    obtain st1 evs1 r
      where ex: "(extract_start_table st (name, cols) :: reader \<times> 'p event list \<times> error option)
                   = (st1, evs1, r)"
      by (cases "extract_start_table st (name, cols) :: reader \<times> 'p event list \<times> error option")
    from assms(2) Inr Some m
    have miss: "\<not> (''timestamp'' \<in> set (column_names cols) \<and> ''tzoffset'' \<in> set (column_names cols) \<and>
              ''raw_packet'' \<in> set (column_names cols))"
      by (simp add: valid_table_start_def)
    from start_table_missing [OF miss ex] obtain err
      where r: "r = Some err" and keep: "g_read_rows st1 = g_read_rows st"
        "g_lines_read st1 = g_lines_read st"
      by blast
    from Some have copy: "startswith ''COPY '' (strip decoded)"
      by (auto simp: match_copy_def split: if_splits)
    from assms(1,3) Inr Some m ex r copy have "st' = st1" "evs = evs1"
      by (simp_all add: process_line_def Let_def)
    with keep assms(1) start_table_no_load_queue [OF ex] show ?thesis by simp
  qed
qed

lemma seeking_run:
  assumes "\<not> g_read_rows st" and "\<forall>r \<in> set rest. \<not> valid_table_start r"
    and "read_compressed_xz env st rest = (st', evs, out)"
  shows "\<not> g_read_rows st' \<and> g_lines_read st' = g_lines_read st \<and> filter is_load_queue evs = []"
  using assms
proof (induction rest arbitrary: st st' evs out)
  case Nil
  then show ?case by simp
next
  case (Cons l rest)
  obtain st1 evs1 c where step: "process_line env st l = (st1, evs1, c)"
    by (cases "process_line env st l")
  from Cons.prems have inv: "\<not> valid_table_start l" by simp
  note s = seeking_step [OF Cons.prems(1) inv step]
  show ?case
  proof (cases c)
    case Next
    obtain st2 evs2 out2 where run: "read_compressed_xz env st1 rest = (st2, evs2, out2)"
      by (cases "read_compressed_xz env st1 rest")
    from Cons.prems(2) have rest: "\<forall>r \<in> set rest. \<not> valid_table_start r" by simp
    from s have "\<not> g_read_rows st1" by simp
    note ih = Cons.IH [OF this rest run]
    from Cons.prems(3) step Next run have "st' = st2" "evs = evs1 @ evs2"
      by simp_all
    with ih s show ?thesis by simp
  next
    case Break
    with Cons.prems(3) step s show ?thesis by auto
  next
    case (Raise e)
    with Cons.prems(3) step s show ?thesis by auto
  qed
qed

section \<open>The loop on the example lines\<close>

lemma startswith_Cons: "startswith (c # p) s \<Longrightarrow> \<exists>r. s = c # r"
  by (cases s) (auto simp: startswith_def)

lemma dc_copy_step: "process_line echo_mqtt init_reader dc_copy = (dc_reader, dc_start_events, Next)"
proof -
  have a: "decode_ascii dc_copy = Inr dc_copy"
    by (simp add: decode_ascii_def dc_copy_def newline_def)
  have s: "strip dc_copy = ''COPY dc_status (timestamp, tzoffset, raw_packet)''"
    by (simp add: strip_def dc_copy_def is_space_def newline_def)
  have m: "match_copy ''COPY dc_status (timestamp, tzoffset, raw_packet)''
             = Some (''dc_status'', ''timestamp, tzoffset, raw_packet'')"
    by (simp add: match_copy_def startswith_def is_word_def newline_def)
  have c: "column_names ''timestamp, tzoffset, raw_packet''
             = [''timestamp'', ''tzoffset'', ''raw_packet'']"
    by (simp add: column_names_def strip_def is_space_def remove_char_def dquote_def)
  have e: "(extract_start_table init_reader (''dc_status'', ''timestamp, tzoffset, raw_packet'')
             :: reader \<times> nat list event list \<times> error option)
           = (dc_reader,
              [LogBeginTable ''dc_status'', LogColumns [''timestamp'', ''tzoffset'', ''raw_packet'']],
              None)"
    by (simp add: extract_start_table_def c columns_map_def enumerate_eq_zip lookup_column_def
        dc_reader_def init_reader_def)
  have g: "\<not> g_read_rows init_reader"
    by (simp add: init_reader_def)
  have n: "g_table_name dc_reader = Some ''dc_status''"
    by (simp add: dc_reader_def)
  have w: "startswith ''COPY '' ''COPY dc_status (timestamp, tzoffset, raw_packet)''"
    by (simp add: startswith_def)
  show ?thesis
    by (simp add: process_line_def a s m e g n w dc_start_events_def)
qed

lemma short_row_ascii: "decode_ascii short_row = Inr short_row"
  by (simp add: decode_ascii_def short_row_def newline_def)

lemma short_row_strip: "strip short_row = ''2020-01-01 00:00:00''"
  by (simp add: strip_def short_row_def is_space_def newline_def)

lemma short_row_decode:
  "decode_row (dc_reader\<lparr>g_lines_read := g_lines_read dc_reader + 1\<rparr>) ''2020-01-01 00:00:00''
     = Inl IndexError"
  by (simp add: decode_row_def get_cell_def bind_err_def dc_reader_def tab_def)

lemma completed_ascii: "decode_ascii completed_line = Inr completed_line"
  by (simp add: decode_ascii_def completed_line_def newline_def)

lemma completed_strip: "strip completed_line = ''-- Completed backup''"
  by (simp add: strip_def completed_line_def is_space_def newline_def)

lemma completed_decode:
  "decode_row (dc_reader\<lparr>g_lines_read := g_lines_read dc_reader + 1\<rparr>) ''-- Completed backup''
     = Inl IndexError"
  by (simp add: decode_row_def get_cell_def bind_err_def dc_reader_def tab_def)

lemma row_failure_step:
  assumes "g_read_rows st" and "decode_ascii line_raw = Inr decoded"
    and "strip decoded \<noteq> [backslash, CHR ''.'']" and "strip decoded \<noteq> []"
    and "decode_row (st\<lparr>g_lines_read := g_lines_read st + 1\<rparr>) (strip decoded) = Inl e"
  shows "process_line env st line_raw = (st\<lparr>g_lines_read := g_lines_read st + 1\<rparr>, [], Raise e)"
  using assms by (simp add: process_line_def extract_column_in_def Let_def)

lemma short_row_step:
  "process_line echo_mqtt dc_reader short_row = (dc_reader\<lparr>g_lines_read := 1\<rparr>, [], Raise IndexError)"
proof -
  have g: "g_read_rows dc_reader" "g_lines_read dc_reader = 0"
    by (simp_all add: dc_reader_def)
  have n: "strip short_row \<noteq> [backslash, CHR ''.'']" "strip short_row \<noteq> []"
    by (simp_all add: short_row_strip)
  from row_failure_step [OF g(1) short_row_ascii n, of IndexError echo_mqtt] short_row_decode
  show ?thesis by (simp add: short_row_strip g(2))
qed

lemma completed_row_step:
  "process_line echo_mqtt dc_reader completed_line
     = (dc_reader\<lparr>g_lines_read := 1\<rparr>, [], Raise IndexError)"
proof -
  have g: "g_read_rows dc_reader" "g_lines_read dc_reader = 0"
    by (simp_all add: dc_reader_def)
  have n: "strip completed_line \<noteq> [backslash, CHR ''.'']" "strip completed_line \<noteq> []"
    by (simp_all add: completed_strip)
  from row_failure_step [OF g(1) completed_ascii n, of IndexError echo_mqtt] completed_decode
  show ?thesis by (simp add: completed_strip g(2))
qed

lemma skipped_copy_step:
  "process_line echo_mqtt init_reader skipped_copy = (skipped_reader, skip_events, Next)"
proof -
  have g: "\<not> g_read_rows init_reader"
    by (simp add: init_reader_def)
  from skipped_copy_match have w: "startswith ''COPY '' (strip skipped_copy)"
    by (auto simp: match_copy_def split: if_splits)
  show ?thesis
    by (simp add: process_line_def skipped_copy_ascii skipped_copy_match skipped_copy_start g w
        skip_events_def)
qed

lemma row_micros_raw_ascii: "decode_ascii row_micros_raw = Inr row_micros_raw"
  by (simp add: decode_ascii_def row_micros_raw_def row_micros_def newline_def tab_def
      backslash_def)

lemma row_micros_raw_strip: "strip row_micros_raw = row_micros"
  by (simp add: strip_def row_micros_raw_def row_micros_def is_space_def newline_def tab_def
      backslash_def)

lemma row_micros_no_copy: "\<not> startswith ''COPY '' row_micros"
  by (simp add: startswith_def row_micros_def)

lemma row_micros_no_completed: "\<not> startswith ''-- Completed'' row_micros"
  by (simp add: startswith_def row_micros_def)

lemma terminator_ascii: "decode_ascii terminator = Inr terminator"
  by (simp add: decode_ascii_def terminator_def newline_def backslash_def)

lemma terminator_strip: "strip terminator = [backslash, CHR ''.'']"
  by (simp add: strip_def terminator_def is_space_def newline_def backslash_def)

lemma seeking_other_step:
  assumes "\<not> g_read_rows st" and "decode_ascii line_raw = Inr decoded"
    and "\<not> startswith ''COPY '' (strip decoded)"
    and "\<not> startswith ''-- Completed'' (strip decoded)"
  shows "process_line env st line_raw = (st, [], Next)"
  using assms by (simp add: process_line_def Let_def)

lemma not_copy_invalid:
  assumes "decode_ascii line_raw = Inr decoded" and "\<not> startswith ''COPY '' (strip decoded)"
  shows "\<not> valid_table_start line_raw"
  using assms by (simp add: valid_table_start_def match_copy_def)

lemma terminator_no_copy:
  "\<not> startswith ''COPY '' (strip terminator)" "\<not> startswith ''-- Completed'' (strip terminator)"
  by (simp_all add: terminator_strip startswith_def backslash_def)

lemma skipped_run:
  "read_compressed_xz echo_mqtt init_reader [skipped_copy, row_micros_raw, terminator]
     = (skipped_reader, skip_events, Exhausted)"
proof -
  have g: "\<not> g_read_rows skipped_reader"
    by (simp add: skipped_reader_def init_reader_def)
  have r: "process_line echo_mqtt skipped_reader row_micros_raw = (skipped_reader, [], Next)"
    using row_micros_no_copy row_micros_no_completed
    by (intro seeking_other_step [OF g row_micros_raw_ascii]) (simp_all add: row_micros_raw_strip)
  have t: "process_line echo_mqtt skipped_reader terminator = (skipped_reader, [], Next)"
    by (intro seeking_other_step [OF g terminator_ascii] terminator_no_copy)
  show ?thesis
    by (simp add: skipped_copy_step r t)
qed

lemma row_fs_raw_ascii: "decode_ascii row_fs_raw = Inr row_fs_raw"
  by (simp add: decode_ascii_def row_fs_raw_def row_fs_def newline_def tab_def backslash_def)

lemma row_fs_raw_strip: "strip row_fs_raw = row_fs"
  by (simp add: strip_def row_fs_raw_def row_fs_def is_space_def newline_def tab_def
      backslash_def)

lemma row_fs_no_marker: "row_fs \<noteq> [backslash, CHR ''.'']" "row_fs \<noteq> []"
  by (simp_all add: row_fs_def)

section \<open>Runs of the bounded queue\<close>

lemma attempts_Nil: "attempts [] s = s"
  by (simp add: attempts_def)

lemma attempts_snoc: "attempts (rs @ [r]) s = attempt r (attempts rs s)"
  by (simp add: attempts_def)

lemma attempts_Cons: "attempts (r # rs) s = attempts rs (attempt r s)"
  by (simp add: attempts_def)

lemma attempt_invariant:
  assumes "length (items (queue s)) \<le> capacity (queue s)"
    and "enqueued s = dequeued s @ items (queue s)"
  shows "length (items (queue (attempt r s))) \<le> capacity (queue (attempt r s)) \<and>
         capacity (queue (attempt r s)) = capacity (queue s) \<and>
         enqueued (attempt r s) = dequeued (attempt r s) @ items (queue (attempt r s))"
proof (cases r)
  case (Enqueue x)
  with assms show ?thesis
    by (auto simp: enqueue_def split: option.splits if_splits)
next
  case Dequeue
  with assms show ?thesis
    by (auto simp: dequeue_def split: option.splits list.splits)
qed

lemma attempts_invariant:
  "length (items (queue (attempts rs (start n)))) \<le> capacity (queue (attempts rs (start n))) \<and>
   capacity (queue (attempts rs (start n))) = n \<and>
   enqueued (attempts rs (start n))
     = dequeued (attempts rs (start n)) @ items (queue (attempts rs (start n)))"
proof (induction rs rule: rev_induct)
  case Nil
  show ?case by (simp add: attempts_Nil start_def new_queue_def)
next
  case (snoc r rs)
  from snoc.IH attempt_invariant [of "attempts rs (start n)" r]
  show ?case by (simp add: attempts_snoc)
qed

lemma enqueues_fit:
  "length (items (queue s)) + length xs \<le> capacity (queue s) \<Longrightarrow>
   attempts (map Enqueue xs) s
     = s\<lparr>queue := (queue s)\<lparr>items := items (queue s) @ xs\<rparr>, enqueued := enqueued s @ xs\<rparr>"
proof (induction xs arbitrary: s)
  case Nil
  show ?case by (simp add: attempts_Nil)
next
  case (Cons x xs)
  from Cons.prems have e: "enqueue x (queue s) = Some ((queue s)\<lparr>items := items (queue s) @ [x]\<rparr>)"
    by (simp add: enqueue_def)
  let ?s = "s\<lparr>queue := (queue s)\<lparr>items := items (queue s) @ [x]\<rparr>, enqueued := enqueued s @ [x]\<rparr>"
  from Cons.prems have "length (items (queue ?s)) + length xs \<le> capacity (queue ?s)"
    by simp
  from Cons.IH [OF this] e show ?case
    by (simp add: attempts_Cons)
qed

section \<open>Rows that fail to decode\<close>

text \<open>
  C1 as stated fails. After a table start, a row with a single field raises \<open>IndexError\<close>
  out of \<open>read_compressed_xz\<close>: the well-formed row and the terminator behind it are never
  read, nothing is queued, and nothing is logged about the failure.
\<close>

theorem row_failure_ends_run_counterexample:
  "read_compressed_xz echo_mqtt init_reader [dc_copy, short_row, row_micros_raw, terminator]
     = (dc_reader\<lparr>g_lines_read := 1\<rparr>, dc_start_events, Raised IndexError)"
  by (simp add: dc_copy_step short_row_step)

text \<open>
  C1, amended. While a table section is open, a row that fails to decode (too few fields
  for a column index, a timestamp neither format parses, an offset that \<open>int\<close> refuses or
  \<open>timedelta\<close> cannot hold, a malformed hex payload) is not recovered: the exception leaves \<open>read_compressed_xz\<close> at
  that row with the line counter already raised, nothing is logged or queued for the row,
  and no later line is read.
\<close>

theorem row_failure_ends_run:
  assumes "g_read_rows st"
    and "decode_ascii line_raw = Inr text"
    and "strip text \<noteq> [backslash, CHR ''.'']"
    and "strip text \<noteq> []"
    and "decode_row (st\<lparr>g_lines_read := g_lines_read st + 1\<rparr>) (strip text) = Inl e"
  shows "read_compressed_xz env st (line_raw # rest)
           = (st\<lparr>g_lines_read := g_lines_read st + 1\<rparr>, [], Raised e)"
  using row_failure_step [OF assms, where env = env] by simp

theorem row_failure_ends_run_witness:
  "g_read_rows dc_reader \<and>
   decode_ascii short_row = Inr short_row \<and>
   strip short_row \<noteq> [backslash, CHR ''.''] \<and>
   strip short_row \<noteq> [] \<and>
   decode_row (dc_reader\<lparr>g_lines_read := g_lines_read dc_reader + 1\<rparr>) (strip short_row)
     = Inl IndexError \<and>
   read_compressed_xz echo_mqtt dc_reader [short_row, row_micros_raw, terminator]
     = (dc_reader\<lparr>g_lines_read := g_lines_read dc_reader + 1\<rparr>, [], Raised IndexError) \<and>
   decode_ascii row_fs_raw = Inr row_fs_raw \<and>
   strip row_fs_raw \<noteq> [backslash, CHR ''.''] \<and>
   strip row_fs_raw \<noteq> [] \<and>
   decode_row (dc_reader\<lparr>g_lines_read := g_lines_read dc_reader + 1\<rparr>) (strip row_fs_raw)
     = Inl ValueError \<and>
   read_compressed_xz echo_mqtt dc_reader [row_fs_raw, row_micros_raw, terminator]
     = (dc_reader\<lparr>g_lines_read := g_lines_read dc_reader + 1\<rparr>, [], Raised ValueError)"
proof -
  have g: "g_read_rows dc_reader"
    by (simp add: dc_reader_def)
  have n: "strip short_row \<noteq> [backslash, CHR ''.'']" "strip short_row \<noteq> []"
    by (simp_all add: short_row_strip)
  have d: "decode_row (dc_reader\<lparr>g_lines_read := g_lines_read dc_reader + 1\<rparr>) (strip short_row)
             = Inl IndexError"
    unfolding short_row_strip by (rule short_row_decode)
  have n': "strip row_fs_raw \<noteq> [backslash, CHR ''.'']" "strip row_fs_raw \<noteq> []"
    unfolding row_fs_raw_strip by (rule row_fs_no_marker)+
  have d': "decode_row (dc_reader\<lparr>g_lines_read := g_lines_read dc_reader + 1\<rparr>) (strip row_fs_raw)
             = Inl ValueError"
    unfolding row_fs_raw_strip by (rule decode_row_fs) (simp_all add: dc_reader_def)
  from row_failure_ends_run [OF g short_row_ascii n d]
    row_failure_ends_run [OF g row_fs_raw_ascii n' d']
    g short_row_ascii n d row_fs_raw_ascii n' d'
  show ?thesis by blast
qed

section \<open>The contract of the bounded queue\<close>

text \<open>
  C2. In every run of a queue of capacity \<open>n\<close> from empty: the length never exceeds \<open>n\<close>
  and the capacity stays \<open>n\<close>; the items enqueued so far are exactly the items dequeued
  so far followed by the items still held, in the same order, so every item is dequeued at
  most once and in the order it went in, and once the queue is empty the completed
  enqueues and dequeues are the same items and equally many. The first \<open>n\<close> enqueues
  complete without blocking. An enqueue is blocked exactly while the queue is full, and a
  dequeue exactly while it is empty; a dequeue that completes returns the oldest item; and
  from a full queue of positive capacity one dequeue is enough for the blocked enqueue to
  complete, filling the queue again.
\<close>

theorem bounded_queue_contract:
  "length (items (queue (attempts rs (start n)))) \<le> n \<and>
   capacity (queue (attempts rs (start n))) = n \<and>
   enqueued (attempts rs (start n))
     = dequeued (attempts rs (start n)) @ items (queue (attempts rs (start n))) \<and>
   (items (queue (attempts rs (start n))) = [] \<longrightarrow>
      enqueued (attempts rs (start n)) = dequeued (attempts rs (start n)) \<and>
      length (enqueued (attempts rs (start n))) = length (dequeued (attempts rs (start n)))) \<and>
   (length (xs :: 'a list) = n \<longrightarrow>
      items (queue (attempts (map Enqueue xs) (start n))) = xs \<and>
      enqueue x (queue (attempts (map Enqueue xs) (start n))) = None) \<and>
   (enqueue x q = None \<longleftrightarrow> length (items q) = capacity q) \<and>
   (length (items q) \<noteq> capacity q \<longrightarrow> enqueue x q = Some (q\<lparr>items := items q @ [x]\<rparr>)) \<and>
   (dequeue q = None \<longleftrightarrow> length (items q) = 0) \<and>
   (\<forall>y ys. items q = y # ys \<longrightarrow> dequeue q = Some (y, q\<lparr>items := ys\<rparr>)) \<and>
   (length (items q) = capacity q \<and> 0 < capacity q \<longrightarrow>
      (\<exists>y q'. dequeue q = Some (y, q') \<and> y = hd (items q) \<and>
               enqueue x q' = Some (q'\<lparr>items := tl (items q) @ [x]\<rparr>) \<and>
               length (tl (items q) @ [x]) = capacity q))"
proof -
  note inv = attempts_invariant [of rs n]
  have fits: "length (xs :: 'a list) = n \<longrightarrow>
      items (queue (attempts (map Enqueue xs) (start n))) = xs \<and>
      enqueue x (queue (attempts (map Enqueue xs) (start n))) = None"
  proof
    assume l: "length xs = n"
    then have "length (items (queue (start n :: 'a queue_run))) + length xs
                 \<le> capacity (queue (start n :: 'a queue_run))"
      by (simp add: start_def new_queue_def)
    from enqueues_fit [OF this] l
    show "items (queue (attempts (map Enqueue xs) (start n))) = xs \<and>
      enqueue x (queue (attempts (map Enqueue xs) (start n))) = None"
      by (simp add: start_def new_queue_def enqueue_def)
  qed
  have enq: "(enqueue x q = None \<longleftrightarrow> length (items q) = capacity q) \<and>
     (length (items q) \<noteq> capacity q \<longrightarrow> enqueue x q = Some (q\<lparr>items := items q @ [x]\<rparr>))"
    by (simp add: enqueue_def)
  have deq: "(dequeue q = None \<longleftrightarrow> length (items q) = 0) \<and>
     (\<forall>y ys. items q = y # ys \<longrightarrow> dequeue q = Some (y, q\<lparr>items := ys\<rparr>))"
    by (cases "items q") (simp_all add: dequeue_def)
  have wake: "length (items q) = capacity q \<and> 0 < capacity q \<longrightarrow>
      (\<exists>y q'. dequeue q = Some (y, q') \<and> y = hd (items q) \<and>
               enqueue x q' = Some (q'\<lparr>items := tl (items q) @ [x]\<rparr>) \<and>
               length (tl (items q) @ [x]) = capacity q)"
    by (cases "items q") (auto simp: dequeue_def enqueue_def)
  from inv fits enq deq wake show ?thesis
    by simp
qed

theorem bounded_queue_contract_witness:
  "items (queue (attempts queue_requests (start 2))) = [] \<and>
   enqueued (attempts queue_requests (start 2)) = dequeued (attempts queue_requests (start 2)) \<and>
   dequeued (attempts queue_requests (start 2)) = [1, 2, 3] \<and>
   length [1, 2 :: nat] = 2 \<and>
   items (queue (attempts (map Enqueue [1, 2 :: nat]) (start 2))) = [1, 2] \<and>
   enqueue 3 (queue (attempts (map Enqueue [1, 2 :: nat]) (start 2))) = None \<and>
   length (items full_queue) = capacity full_queue \<and>
   (\<exists>y q'. dequeue full_queue = Some (y, q') \<and> y = 1 \<and>
            enqueue 3 q' = Some (q'\<lparr>items := [2, 3]\<rparr>))"
proof -
  have e: "items (queue (attempts queue_requests (start 2))) = []"
    by (simp add: queue_requests_def attempts_def start_def new_queue_def enqueue_def dequeue_def)
  have d: "dequeued (attempts queue_requests (start 2)) = [1, 2, 3]"
    by (simp add: queue_requests_def attempts_def start_def new_queue_def enqueue_def dequeue_def)
  have l: "length [1, 2 :: nat] = 2" by simp
  have f: "length (items full_queue) = capacity full_queue"
    by (simp add: full_queue_def)
  have w: "\<exists>y q'. dequeue full_queue = Some (y, q') \<and> y = 1 \<and>
                   enqueue 3 q' = Some (q'\<lparr>items := [2, 3]\<rparr>)"
    by (simp add: full_queue_def dequeue_def enqueue_def)
  from bounded_queue_contract [of queue_requests 2 "[1, 2]" 3 full_queue] e d l f w
  show ?thesis by blast
qed

section \<open>Skipped tables\<close>

text \<open>
  C3. When the reader is looking for a table and meets a \<open>COPY\<close> line whose column list
  lacks \<open>timestamp\<close>, \<open>tzoffset\<close> or \<open>raw_packet\<close>, it logs that it skips the table and
  goes on still looking for a table. Whatever lines follow, as long as none of them is a
  table start with all three columns, none is taken as a row: nothing is handed to
  \<open>load_queue\<close>, the line counter does not move, and the reader is still looking for a
  table at the end.
\<close>

theorem missing_column_skips_table:
  assumes "\<not> g_read_rows st"
    and "decode_ascii line_raw = Inr text"
    and "match_copy (strip text) = Some (name, cols)"
    and "\<not> (''timestamp'' \<in> set (column_names cols) \<and> ''tzoffset'' \<in> set (column_names cols) \<and>
            ''raw_packet'' \<in> set (column_names cols))"
    and "\<forall>r \<in> set rest. \<not> valid_table_start r"
    and "read_compressed_xz (env :: 'p mqtt) st (line_raw # rest) = (st', evs, out)"
  shows "(\<exists>st1 evs1 err. process_line env st line_raw = (st1, evs1, Next) \<and>
            LogSkippingTable err \<in> set evs1 \<and> \<not> g_read_rows st1 \<and> set evs1 \<subseteq> set evs) \<and>
         filter is_load_queue evs = [] \<and>
         \<not> g_read_rows st' \<and>
         g_lines_read st' = g_lines_read st"
proof -
  obtain st1 evs1 r
    where ex: "(extract_start_table st (name, cols) :: reader \<times> 'p event list \<times> error option)
                 = (st1, evs1, r)"
    by (cases "extract_start_table st (name, cols) :: reader \<times> 'p event list \<times> error option")
  from start_table_missing [OF assms(4) ex] obtain err
    where r: "r = Some err" and logged: "LogSkippingTable err \<in> set evs1"
      and keep: "g_read_rows st1 = g_read_rows st"
    by blast
  from assms(3) have copy: "startswith ''COPY '' (strip text)"
    by (auto simp: match_copy_def split: if_splits)
  from assms(1,2,3) ex r copy have step: "process_line env st line_raw = (st1, evs1, Next)"
    by (simp add: process_line_def Let_def)
  obtain st2 evs2 out2 where run: "read_compressed_xz env st1 rest = (st2, evs2, out2)"
    by (cases "read_compressed_xz env st1 rest")
  from assms(6) step run have "evs = evs1 @ evs2"
    by simp
  then have sub: "set evs1 \<subseteq> set evs" by simp
  from assms(2,3,4) have "\<not> valid_table_start line_raw"
    by (simp add: valid_table_start_def)
  with assms(5) have "\<forall>r \<in> set (line_raw # rest). \<not> valid_table_start r"
    by simp
  from seeking_run [OF assms(1) this assms(6)] step logged keep assms(1) sub
  show ?thesis by blast
qed

theorem missing_column_skips_table_witness:
  "\<not> g_read_rows init_reader \<and>
   decode_ascii skipped_copy = Inr skipped_copy \<and>
   match_copy (strip skipped_copy) = Some (''mx_logpage'', cols_no_raw) \<and>
   ''raw_packet'' \<notin> set (column_names cols_no_raw) \<and>
   \<not> valid_table_start row_micros_raw \<and>
   \<not> valid_table_start terminator \<and>
   read_compressed_xz echo_mqtt init_reader [skipped_copy, row_micros_raw, terminator]
     = (skipped_reader, skip_events, Exhausted) \<and>
   filter is_load_queue skip_events = [] \<and>
   \<not> g_read_rows skipped_reader \<and>
   g_lines_read skipped_reader = g_lines_read init_reader"
proof -
  have g: "\<not> g_read_rows init_reader"
    by (simp add: init_reader_def)
  have c: "''raw_packet'' \<notin> set (column_names cols_no_raw)"
    by (simp add: column_names_no_raw)
  then have m: "\<not> (''timestamp'' \<in> set (column_names cols_no_raw) \<and>
                 ''tzoffset'' \<in> set (column_names cols_no_raw) \<and>
                 ''raw_packet'' \<in> set (column_names cols_no_raw))"
    by simp
  have "\<not> startswith ''COPY '' (strip row_micros_raw)"
    by (simp add: row_micros_raw_strip row_micros_no_copy)
  note v1 = not_copy_invalid [OF row_micros_raw_ascii this]
  note v2 = not_copy_invalid [OF terminator_ascii terminator_no_copy(1)]
  from v1 v2 have v: "\<forall>r \<in> set [row_micros_raw, terminator]. \<not> valid_table_start r"
    by simp
  from missing_column_skips_table [OF g skipped_copy_ascii skipped_copy_match m v skipped_run]
    g skipped_copy_ascii skipped_copy_match c v1 v2 skipped_run
  show ?thesis by blast
qed

section \<open>The end-of-backup line\<close>

text \<open>
  C4 as stated fails. With the section of \<open>dc_status\<close> still open, the line
  \<open>-- Completed backup\<close> is split as a row; it has one field, so \<open>IndexError\<close> leaves
  \<open>read_compressed_xz\<close>. Neither the rows read nor the end of the backup is logged.
\<close>

theorem completed_in_open_table_counterexample:
  "read_compressed_xz echo_mqtt init_reader [dc_copy, completed_line]
     = (dc_reader\<lparr>g_lines_read := 1\<rparr>, dc_start_events, Raised IndexError)"
  by (simp add: dc_copy_step completed_row_step)

text \<open>
  C4, amended. A line starting with \<open>-- Completed\<close> halts the reader cleanly, logging the
  end of the backup and reading no further line, when no table section is open. While a
  section is open the line is consumed as a row of that table: the line counter is raised
  and the line goes to \<open>_extract_column_in\<close>, whose exception, if any, leaves the reader;
  no count of rows is logged for the open table.
\<close>

theorem completed_line_halts_when_seeking:
  assumes "decode_ascii line_raw = Inr text"
    and "startswith ''-- Completed'' (strip text)"
  shows "(\<not> g_read_rows st \<longrightarrow>
            read_compressed_xz env st (line_raw # rest) = (st, [LogEndOfBackup], Completed)) \<and>
         (g_read_rows st \<longrightarrow>
            process_line env st line_raw =
              (case extract_column_in env st (strip text) of
                 (st', evs, None) \<Rightarrow> (st', evs, Next)
               | (st', evs, Some e) \<Rightarrow> (st', evs, Raise e)) \<and>
            g_lines_read (fst (process_line env st line_raw)) = g_lines_read st + 1 \<and>
            (\<forall>n. LogReadRows n \<notin> set (fst (snd (process_line env st line_raw)))))"
proof -
  from startswith_Cons [OF assms(2)] obtain r where r: "strip text = CHR ''-'' # r" ..
  then have no: "\<not> startswith ''COPY '' (strip text)" "strip text \<noteq> []"
    "strip text \<noteq> [backslash, CHR ''.'']"
    by (simp_all add: startswith_def backslash_def)
  have seek: "\<not> g_read_rows st \<Longrightarrow> process_line env st line_raw = (st, [LogEndOfBackup], Break)"
    using assms no by (simp add: process_line_def Let_def)
  have rows: "g_read_rows st \<Longrightarrow>
     process_line env st line_raw =
       (case extract_column_in env st (strip text) of
          (st', evs, None) \<Rightarrow> (st', evs, Next)
        | (st', evs, Some e) \<Rightarrow> (st', evs, Raise e))"
    using assms no by (simp add: process_line_def Let_def)
  have count: "g_lines_read (fst (extract_column_in env st (strip text))) = g_lines_read st + 1"
    by (simp add: extract_column_in_def Let_def split: sum.splits prod.splits)
  have logs: "LogReadRows n \<notin> set (fst (snd (extract_column_in env st (strip text))))" for n
    by (auto simp: extract_column_in_def column_in_def Let_def split: sum.splits prod.splits)
  have "g_read_rows st \<Longrightarrow>
      g_lines_read (fst (process_line env st line_raw)) = g_lines_read st + 1 \<and>
      (\<forall>n. LogReadRows n \<notin> set (fst (snd (process_line env st line_raw))))"
    using count logs
    by (cases "extract_column_in env st (strip text)") (auto simp: rows split: option.splits)
  with seek rows show ?thesis by simp
qed

theorem completed_line_halts_when_seeking_witness:
  "decode_ascii completed_line = Inr completed_line \<and>
   startswith ''-- Completed'' (strip completed_line) \<and>
   \<not> g_read_rows init_reader \<and>
   read_compressed_xz echo_mqtt init_reader [completed_line, dc_copy]
     = (init_reader, [LogEndOfBackup], Completed) \<and>
   g_read_rows dc_reader \<and>
   process_line echo_mqtt dc_reader completed_line =
     (case extract_column_in echo_mqtt dc_reader (strip completed_line) of
        (st', evs, None) \<Rightarrow> (st', evs, Next)
      | (st', evs, Some e) \<Rightarrow> (st', evs, Raise e)) \<and>
   g_lines_read (fst (process_line echo_mqtt dc_reader completed_line)) = g_lines_read dc_reader + 1"
proof -
  have s: "startswith ''-- Completed'' (strip completed_line)"
    by (simp add: completed_strip startswith_def)
  have g: "\<not> g_read_rows init_reader" "g_read_rows dc_reader"
    by (simp_all add: init_reader_def dc_reader_def)
  from completed_line_halts_when_seeking [OF completed_ascii s, of init_reader echo_mqtt "[dc_copy]"]
    completed_line_halts_when_seeking [OF completed_ascii s, of dc_reader echo_mqtt "[]"]
    completed_ascii s g
  show ?thesis by blast
qed

section \<open>The fields of a row\<close>

text \<open>
  C5. The packet of every row that decodes is the hex decoding of the raw-packet field
  with its first three characters dropped; and the field made of two backslashes, \<open>x\<close>
  and \<open>00112233\<close> decodes to the bytes 00 11 22 33.
\<close>

theorem payload_is_hex_after_three:
  "(decode_row st line = Inr (ts, packet) \<longrightarrow>
      (\<exists>field. get_cell (split_on tab line) (g_col_raw st) = Inr field \<and>
               fromhex (drop 3 field) = Inr packet)) \<and>
   get_cell (split_on tab row_micros) (g_col_raw dc_reader)
     = Inr ([backslash, backslash, CHR ''x''] @ ''00112233'') \<and>
   decode_row dc_reader row_micros = Inr (ts_micros\<lparr>tzinfo := Some 46800\<rparr>, [0x00, 0x11, 0x22, 0x33]) \<and>
   fromhex (drop 3 ([backslash, backslash, CHR ''x''] @ ''00112233'')) = Inr [0x00, 0x11, 0x22, 0x33]"
proof -
  have a: "decode_row st line = Inr (ts, packet) \<longrightarrow>
      (\<exists>field. get_cell (split_on tab line) (g_col_raw st) = Inr field \<and>
               fromhex (drop 3 field) = Inr packet)"
    using decode_row_parts [of st line ts packet] by blast
  have b: "get_cell (split_on tab row_micros) (g_col_raw dc_reader)
             = Inr ([backslash, backslash, CHR ''x''] @ ''00112233'')"
    by (simp add: cells_row_micros get_cell_def dc_reader_def)
  have c: "decode_row dc_reader row_micros = Inr (ts_micros\<lparr>tzinfo := Some 46800\<rparr>, [0, 17, 34, 51])"
    by (rule decode_row_micros) (simp_all add: dc_reader_def)
  from a b c hex_after_prefix show ?thesis by simp
qed

theorem payload_is_hex_after_three_witness:
  "decode_row dc_reader row_micros = Inr (ts_micros\<lparr>tzinfo := Some 46800\<rparr>, [0, 17, 34, 51]) \<and>
   (\<exists>field. get_cell (split_on tab row_micros) (g_col_raw dc_reader) = Inr field \<and>
            fromhex (drop 3 field) = Inr [0, 17, 34, 51])"
  using payload_is_hex_after_three
    [of dc_reader row_micros "ts_micros\<lparr>tzinfo := Some 46800\<rparr>" "[0, 17, 34, 51]"]
  by blast

section \<open>Table starts\<close>

text \<open>
  C6. Take the column list of a table start, split at its commas; clean a token by
  removing its double quotes and stripping it. When some token cleans to \<open>timestamp\<close>,
  some to \<open>tzoffset\<close> and some to \<open>raw_packet\<close>, \<open>_extract_start_table\<close> succeeds and
  stores for each of the three the position, counted from zero, of a token that cleans to
  that name: the last such token, so where no name is declared twice it is the one
  position of the name. For the list \<open>id, "timestamp", tzoffset, raw_packet\<close> the indices
  stored are 1, 2 and 3.
\<close>

theorem start_table_resolves_positions:
  assumes "''timestamp'' \<in> (\<lambda>c. strip (remove_char dquote c)) ` set (split_on (CHR '','') cols)"
    and "''tzoffset'' \<in> (\<lambda>c. strip (remove_char dquote c)) ` set (split_on (CHR '','') cols)"
    and "''raw_packet'' \<in> (\<lambda>c. strip (remove_char dquote c)) ` set (split_on (CHR '','') cols)"
  shows "(\<exists>i j k.
      (extract_start_table st (name, cols) :: reader \<times> 'p event list \<times> error option) =
        (st\<lparr>g_table_name := Some name, g_col_timestamp := Some i, g_col_tzoffset := Some j,
            g_col_raw := Some k, g_read_rows := True, g_lines_read := 0\<rparr>,
         [LogBeginTable name,
          LogColumns (map (\<lambda>c. strip (remove_char dquote c)) (split_on (CHR '','') cols))],
         None) \<and>
      i < length (split_on (CHR '','') cols) \<and>
      strip (remove_char dquote (split_on (CHR '','') cols ! i)) = ''timestamp'' \<and>
      (\<forall>n. i < n \<and> n < length (split_on (CHR '','') cols) \<longrightarrow>
           strip (remove_char dquote (split_on (CHR '','') cols ! n)) \<noteq> ''timestamp'') \<and>
      j < length (split_on (CHR '','') cols) \<and>
      strip (remove_char dquote (split_on (CHR '','') cols ! j)) = ''tzoffset'' \<and>
      (\<forall>n. j < n \<and> n < length (split_on (CHR '','') cols) \<longrightarrow>
           strip (remove_char dquote (split_on (CHR '','') cols ! n)) \<noteq> ''tzoffset'') \<and>
      k < length (split_on (CHR '','') cols) \<and>
      strip (remove_char dquote (split_on (CHR '','') cols ! k)) = ''raw_packet'' \<and>
      (\<forall>n. k < n \<and> n < length (split_on (CHR '','') cols) \<longrightarrow>
           strip (remove_char dquote (split_on (CHR '','') cols ! n)) \<noteq> ''raw_packet'')) \<and>
    (extract_start_table init_reader (''dc_status'', cols_quoted)
       :: reader \<times> 'p event list \<times> error option) =
      (init_reader\<lparr>g_table_name := Some ''dc_status'', g_col_timestamp := Some 1,
          g_col_tzoffset := Some 2, g_col_raw := Some 3, g_read_rows := True,
          g_lines_read := 0\<rparr>,
       [LogBeginTable ''dc_status'',
        LogColumns [''id'', ''timestamp'', ''tzoffset'', ''raw_packet'']],
       None)"
proof -
  let ?tokens = "split_on (CHR '','') cols"
  let ?clean = "\<lambda>c. strip (remove_char dquote c)"
  have names: "column_names cols = map ?clean ?tokens"
    by (simp add: column_names_def)
  have len: "length (column_names cols) = length ?tokens"
    by (simp add: names)
  have nth: "n < length ?tokens \<Longrightarrow> column_names cols ! n = ?clean (?tokens ! n)" for n
    by (simp add: names)
  from assms have m: "''timestamp'' \<in> set (column_names cols)"
    "''tzoffset'' \<in> set (column_names cols)" "''raw_packet'' \<in> set (column_names cols)"
    by (simp_all add: names)
  from columns_map_member [OF m(1)] obtain i
    where i: "columns_map (column_names cols) ''timestamp'' = Some i" ..
  from columns_map_member [OF m(2)] obtain j
    where j: "columns_map (column_names cols) ''tzoffset'' = Some j" ..
  from columns_map_member [OF m(3)] obtain k
    where k: "columns_map (column_names cols) ''raw_packet'' = Some k" ..
  have ex: "(extract_start_table st (name, cols) :: reader \<times> 'p event list \<times> error option) =
        (st\<lparr>g_table_name := Some name, g_col_timestamp := Some i, g_col_tzoffset := Some j,
            g_col_raw := Some k, g_read_rows := True, g_lines_read := 0\<rparr>,
         [LogBeginTable name, LogColumns (map ?clean ?tokens)], None)"
    by (simp add: extract_start_table_def lookup_column_def i j k names [symmetric])
  have pos: "c < length ?tokens \<and> ?clean (?tokens ! c) = key \<and>
             (\<forall>n. c < n \<and> n < length ?tokens \<longrightarrow> ?clean (?tokens ! n) \<noteq> key)"
    if "columns_map (column_names cols) key = Some c" for key c
    using columns_map_Some [OF that] by (auto simp: len nth)
  have general: "\<exists>i j k.
      (extract_start_table st (name, cols) :: reader \<times> 'p event list \<times> error option) =
        (st\<lparr>g_table_name := Some name, g_col_timestamp := Some i, g_col_tzoffset := Some j,
            g_col_raw := Some k, g_read_rows := True, g_lines_read := 0\<rparr>,
         [LogBeginTable name, LogColumns (map ?clean ?tokens)], None) \<and>
      i < length ?tokens \<and> ?clean (?tokens ! i) = ''timestamp'' \<and>
      (\<forall>n. i < n \<and> n < length ?tokens \<longrightarrow> ?clean (?tokens ! n) \<noteq> ''timestamp'') \<and>
      j < length ?tokens \<and> ?clean (?tokens ! j) = ''tzoffset'' \<and>
      (\<forall>n. j < n \<and> n < length ?tokens \<longrightarrow> ?clean (?tokens ! n) \<noteq> ''tzoffset'') \<and>
      k < length ?tokens \<and> ?clean (?tokens ! k) = ''raw_packet'' \<and>
      (\<forall>n. k < n \<and> n < length ?tokens \<longrightarrow> ?clean (?tokens ! n) \<noteq> ''raw_packet'')"
    using ex pos [OF i] pos [OF j] pos [OF k] by blast
  have example: "(extract_start_table init_reader (''dc_status'', cols_quoted)
       :: reader \<times> 'p event list \<times> error option) =
      (init_reader\<lparr>g_table_name := Some ''dc_status'', g_col_timestamp := Some 1,
          g_col_tzoffset := Some 2, g_col_raw := Some 3, g_read_rows := True,
          g_lines_read := 0\<rparr>,
       [LogBeginTable ''dc_status'',
        LogColumns [''id'', ''timestamp'', ''tzoffset'', ''raw_packet'']],
       None)"
    by (simp add: extract_start_table_def column_names_quoted columns_map_def enumerate_eq_zip
        lookup_column_def)
  from general example show ?thesis by (rule conjI)
qed

theorem start_table_resolves_positions_witness:
  "''timestamp'' \<in> (\<lambda>c. strip (remove_char dquote c)) ` set (split_on (CHR '','') cols_quoted) \<and>
   ''tzoffset'' \<in> (\<lambda>c. strip (remove_char dquote c)) ` set (split_on (CHR '','') cols_quoted) \<and>
   ''raw_packet'' \<in> (\<lambda>c. strip (remove_char dquote c)) ` set (split_on (CHR '','') cols_quoted) \<and>
   split_on (CHR '','') cols_quoted
     = [''id'', CHR '' '' # dquote # ''timestamp'' @ [dquote], '' tzoffset'', '' raw_packet''] \<and>
   (extract_start_table init_reader (''dc_status'', cols_quoted)
      :: reader \<times> nat list event list \<times> error option) =
     (init_reader\<lparr>g_table_name := Some ''dc_status'', g_col_timestamp := Some 1,
         g_col_tzoffset := Some 2, g_col_raw := Some 3, g_read_rows := True,
         g_lines_read := 0\<rparr>,
      [LogBeginTable ''dc_status'',
       LogColumns [''id'', ''timestamp'', ''tzoffset'', ''raw_packet'']],
      None)"
proof -
  have t: "split_on (CHR '','') cols_quoted
     = [''id'', CHR '' '' # dquote # ''timestamp'' @ [dquote], '' tzoffset'', '' raw_packet'']"
    by (simp add: cols_quoted_def dquote_def)
  have c: "map (\<lambda>c. strip (remove_char dquote c)) (split_on (CHR '','') cols_quoted)
             = [''id'', ''timestamp'', ''tzoffset'', ''raw_packet'']"
    using column_names_quoted by (simp add: column_names_def)
  have a: "''timestamp'' \<in> (\<lambda>c. strip (remove_char dquote c)) ` set (split_on (CHR '','') cols_quoted)"
    and b: "''tzoffset'' \<in> (\<lambda>c. strip (remove_char dquote c)) ` set (split_on (CHR '','') cols_quoted)"
    and r: "''raw_packet'' \<in> (\<lambda>c. strip (remove_char dquote c)) ` set (split_on (CHR '','') cols_quoted)"
    using c by (simp_all add: set_map [symmetric] del: set_map)
  note e = start_table_resolves_positions
    [OF a b r, of init_reader "''dc_status''", where ?'p = "nat list", THEN conjunct2]
  from a b r t e show ?thesis by (intro conjI)
qed

text \<open>
  C7. The timestamp of every row that decodes is the parsed timestamp with its zone set
  to the integer the tzoffset field parses to, as a fixed offset in seconds: the date and
  the time of day are the parsed ones, unchanged. The field \<open>46800\<close> gives the offset of
  13 hours and \<open>43200\<close> that of 12 hours.
\<close>

theorem tzoffset_is_fixed_offset:
  "(decode_row st line = Inr (ts, packet) \<longrightarrow>
      (\<exists>tsf tzf utc n.
          get_cell (split_on tab line) (g_col_timestamp st) = Inr tsf \<and>
          get_cell (split_on tab line) (g_col_tzoffset st) = Inr tzf \<and>
          parse_timestamp tsf = Inr utc \<and> py_int tzf = Inr n \<and>
          ts = utc\<lparr>tzinfo := Some n\<rparr>)) \<and>
   py_int ''46800'' = Inr (13 * 3600 + 0 * 60 + 0) \<and>
   py_int ''43200'' = Inr (12 * 3600 + 0 * 60 + 0) \<and>
   replace_tzinfo utc0 (13 * 3600) = utc0\<lparr>tzinfo := Some 46800\<rparr> \<and>
   replace_tzinfo utc0 (12 * 3600) = utc0\<lparr>tzinfo := Some 43200\<rparr> \<and>
   decode_row dc_reader row_micros = Inr (ts_micros\<lparr>tzinfo := Some 46800\<rparr>, [0, 17, 34, 51])"
proof -
  have a: "decode_row st line = Inr (ts, packet) \<longrightarrow>
      (\<exists>tsf tzf utc n.
          get_cell (split_on tab line) (g_col_timestamp st) = Inr tsf \<and>
          get_cell (split_on tab line) (g_col_tzoffset st) = Inr tzf \<and>
          parse_timestamp tsf = Inr utc \<and> py_int tzf = Inr n \<and>
          ts = utc\<lparr>tzinfo := Some n\<rparr>)"
    using decode_row_parts [of st line ts packet] by blast
  have b: "py_int ''46800'' = Inr (13 * 3600 + 0 * 60 + 0)"
    "py_int ''43200'' = Inr (12 * 3600 + 0 * 60 + 0)"
    using int_46800 int_43200 by simp_all
  have r: "replace_tzinfo utc0 (13 * 3600) = utc0\<lparr>tzinfo := Some 46800\<rparr>"
    "replace_tzinfo utc0 (12 * 3600) = utc0\<lparr>tzinfo := Some 43200\<rparr>"
    by (simp_all add: replace_tzinfo_def)
  have c: "decode_row dc_reader row_micros = Inr (ts_micros\<lparr>tzinfo := Some 46800\<rparr>, [0, 17, 34, 51])"
    by (rule decode_row_micros) (simp_all add: dc_reader_def)
  show ?thesis
    by (intro conjI a b r c)
qed

theorem tzoffset_is_fixed_offset_witness:
  "decode_row dc_reader row_micros = Inr (ts_micros\<lparr>tzinfo := Some 46800\<rparr>, [0, 17, 34, 51]) \<and>
   (\<exists>tsf tzf utc n.
       get_cell (split_on tab row_micros) (g_col_timestamp dc_reader) = Inr tsf \<and>
       get_cell (split_on tab row_micros) (g_col_tzoffset dc_reader) = Inr tzf \<and>
       parse_timestamp tsf = Inr utc \<and> py_int tzf = Inr n \<and>
       ts_micros\<lparr>tzinfo := Some 46800\<rparr> = utc\<lparr>tzinfo := Some n\<rparr>)"
proof -
  have c: "decode_row dc_reader row_micros = Inr (ts_micros\<lparr>tzinfo := Some 46800\<rparr>, [0, 17, 34, 51])"
    by (rule decode_row_micros) (simp_all add: dc_reader_def)
  note e = tzoffset_is_fixed_offset
    [of dc_reader row_micros "ts_micros\<lparr>tzinfo := Some 46800\<rparr>" "[0, 17, 34, 51]",
     THEN conjunct1, THEN mp, OF c]
  from c e show ?thesis by (rule conjI)
qed

text \<open>
  C8. A timestamp field is parsed with the format that has microseconds; when that parse
  succeeds its result is the timestamp, and when it fails, which it does with
  \<open>ValueError\<close> only, the result is whatever the format without microseconds gives. The
  text \<open>2020-01-01 00:00:00.123456\<close> parses by the first format and
  \<open>2020-01-01 00:00:00\<close>, which the first format refuses, by the second; the two results
  differ in the microseconds alone.
\<close>

theorem timestamp_tries_micros_then_seconds:
  "(\<forall>dt. strptime_micros s = Inr dt \<longrightarrow> parse_timestamp s = Inr dt) \<and>
   (\<forall>e. strptime_micros s = Inl e \<longrightarrow> e = ValueError \<and> parse_timestamp s = strptime_seconds s) \<and>
   strptime_micros ''2020-01-01 00:00:00.123456'' = Inr ts_micros \<and>
   parse_timestamp ''2020-01-01 00:00:00.123456'' = Inr ts_micros \<and>
   strptime_micros ''2020-01-01 00:00:00'' = Inl ValueError \<and>
   parse_timestamp ''2020-01-01 00:00:00'' = Inr (ts_micros\<lparr>microsecond := 0\<rparr>) \<and>
   microsecond ts_micros = 123456"
proof -
  have a: "\<forall>dt. strptime_micros s = Inr dt \<longrightarrow> parse_timestamp s = Inr dt"
    by (simp add: parse_timestamp_def)
  have b: "\<forall>e. strptime_micros s = Inl e \<longrightarrow> e = ValueError \<and> parse_timestamp s = strptime_seconds s"
    using strptime_re_error [of re_micros s]
    by (auto simp: parse_timestamp_def strptime_micros_def)
  have c: "parse_timestamp ''2020-01-01 00:00:00'' = Inr (ts_micros\<lparr>microsecond := 0\<rparr>)"
    by (simp add: parse_timestamp_def strptime_micros_plain strptime_seconds_plain)
  from a b c strptime_micros_full parse_ts_micros strptime_micros_plain show ?thesis
    by (simp add: ts_micros_def)
qed

theorem timestamp_tries_micros_then_seconds_witness:
  "strptime_micros ''2020-01-01 00:00:00.123456'' = Inr ts_micros \<and>
   parse_timestamp ''2020-01-01 00:00:00.123456'' = Inr ts_micros \<and>
   strptime_micros ''2020-01-01 00:00:00'' = Inl ValueError \<and>
   parse_timestamp ''2020-01-01 00:00:00'' = strptime_seconds ''2020-01-01 00:00:00'' \<and>
   strptime_seconds ''2020-01-01 00:00:00'' = Inr (ts_micros\<lparr>microsecond := 0\<rparr>)"
  using timestamp_tries_micros_then_seconds [of "''2020-01-01 00:00:00.123456''"]
    timestamp_tries_micros_then_seconds [of "''2020-01-01 00:00:00''"]
    strptime_seconds_plain
  by blast

section \<open>The measurement name of dispatched rows\<close>

text \<open>
  C9. Every row of table \<open>mx_status\<close> or \<open>fx_status\<close> that \<open>_extract_column_in\<close> decodes
  without an exception makes exactly one \<open>load_queue\<close> call, and its measurement is
  \<open>MqttTopics.dc_name\<close>, the name the \<open>dc_status\<close> rows get; no other measurement name
  occurs.
\<close>

theorem mx_fx_rows_carry_dc_name:
  assumes "g_table_name st = Some tn"
    and "tn = ''mx_status'' \<or> tn = ''fx_status'' \<or> tn = ''dc_status''"
    and "extract_column_in env st line = (st', evs, None)"
  shows "\<exists>ts p l. filter is_load_queue evs = [LoadQueue (dc_name env) ts p l]"
  using assms
  by (auto simp: extract_column_in_def column_in_def Let_def
      split: sum.splits if_splits prod.splits)

theorem mx_fx_rows_carry_dc_name_witness:
  "g_table_name mx_reader = Some ''mx_status'' \<and>
   extract_column_in echo_mqtt mx_reader row_micros =
     (mx_reader\<lparr>g_lines_read := 1\<rparr>,
      [LoadQueue ''dc_status'' (ts_micros\<lparr>tzinfo := Some 46800\<rparr>) [0, 17, 34, 51] False], None) \<and>
   (\<exists>ts p l. filter is_load_queue
        [LoadQueue ''dc_status'' (ts_micros\<lparr>tzinfo := Some 46800\<rparr>) [0, 17, 34, 51 :: nat] False]
      = [LoadQueue (dc_name echo_mqtt) ts p l])"
proof -
  have n: "g_table_name mx_reader = Some ''mx_status''"
    by (simp add: mx_reader_def)
  have t: "''mx_status'' = ''mx_status'' \<or> ''mx_status'' = ''fx_status'' \<or> ''mx_status'' = ''dc_status''"
    by simp
  from mx_fx_rows_carry_dc_name [OF n t extract_mx_row] n extract_mx_row
  show ?thesis by blast
qed

text \<open>
  C10. A table start that is skipped for a missing column has changed the reader all the
  same: the table name is the skipped table's, \<open>g_col_timestamp\<close> is new when
  \<open>timestamp\<close> is declared, and \<open>g_col_tzoffset\<close> is new when \<open>timestamp\<close> and
  \<open>tzoffset\<close> both are; \<open>g_col_raw\<close>, the row-reading flag and the line counter are as
  before, and the loop goes on to the next line with this state, still not reading rows.
\<close>

theorem skipped_table_leaves_traces:
  assumes "\<not> g_read_rows st"
    and "decode_ascii line_raw = Inr text"
    and "match_copy (strip text) = Some (name, cols)"
    and "extract_start_table st (name, cols) = (st', evs, Some err)"
  shows "process_line env st line_raw = (st', evs, Next) \<and>
         g_table_name st' = Some name \<and>
         g_col_timestamp st' =
           (case columns_map (column_names cols) ''timestamp'' of
              None \<Rightarrow> g_col_timestamp st
            | Some i \<Rightarrow> Some i) \<and>
         g_col_tzoffset st' =
           (case columns_map (column_names cols) ''timestamp'' of
              None \<Rightarrow> g_col_tzoffset st
            | Some i \<Rightarrow>
                (case columns_map (column_names cols) ''tzoffset'' of
                   None \<Rightarrow> g_col_tzoffset st
                 | Some j \<Rightarrow> Some j)) \<and>
         g_col_raw st' = g_col_raw st \<and>
         \<not> g_read_rows st' \<and>
         g_lines_read st' = g_lines_read st"
proof -
  from assms(3) have copy: "startswith ''COPY '' (strip text)"
    by (auto simp: match_copy_def split: if_splits)
  have step: "process_line env st line_raw = (st', evs, Next)"
    using assms copy by (simp add: process_line_def)
  from assms(1,4) have
    "g_table_name st' = Some name \<and>
     g_col_timestamp st' =
       (case columns_map (column_names cols) ''timestamp'' of
          None \<Rightarrow> g_col_timestamp st
        | Some i \<Rightarrow> Some i) \<and>
     g_col_tzoffset st' =
       (case columns_map (column_names cols) ''timestamp'' of
          None \<Rightarrow> g_col_tzoffset st
        | Some i \<Rightarrow>
            (case columns_map (column_names cols) ''tzoffset'' of
               None \<Rightarrow> g_col_tzoffset st
             | Some j \<Rightarrow> Some j)) \<and>
     g_col_raw st' = g_col_raw st \<and>
     \<not> g_read_rows st' \<and>
     g_lines_read st' = g_lines_read st"
    by (auto simp: extract_start_table_def lookup_column_def Let_def split: option.splits)
  with step show ?thesis by simp
qed

theorem skipped_table_leaves_traces_witness:
  "\<not> g_read_rows init_reader \<and>
   decode_ascii skipped_copy = Inr skipped_copy \<and>
   match_copy (strip skipped_copy) = Some (''mx_logpage'', cols_no_raw) \<and>
   process_line echo_mqtt init_reader skipped_copy =
     (skipped_reader,
      [LogBeginTable ''mx_logpage'', LogColumns [''timestamp'', ''tzoffset'', ''value''],
       LogSkippingTable (KeyError ''raw_packet'')],
      Next) \<and>
   g_table_name skipped_reader = Some ''mx_logpage'' \<and>
   g_table_name init_reader = None \<and>
   g_col_timestamp skipped_reader = Some 0 \<and>
   g_col_timestamp init_reader = None \<and>
   g_col_tzoffset skipped_reader = Some 1 \<and>
   g_col_raw skipped_reader = None \<and>
   \<not> g_read_rows skipped_reader \<and>
   g_lines_read skipped_reader = g_lines_read init_reader"
proof -
  have h: "\<not> g_read_rows init_reader"
    by (simp add: init_reader_def)
  from skipped_table_leaves_traces
    [OF h skipped_copy_ascii skipped_copy_match skipped_copy_start, of echo_mqtt]
  have "process_line echo_mqtt init_reader skipped_copy =
     (skipped_reader,
      [LogBeginTable ''mx_logpage'', LogColumns [''timestamp'', ''tzoffset'', ''value''],
       LogSkippingTable (KeyError ''raw_packet'')],
      Next)"
    by blast
  with h skipped_copy_ascii skipped_copy_match show ?thesis
    by (simp add: skipped_reader_def init_reader_def)
qed

end
